theory Spec2Isabelle
  imports Complex_Main
begin

chapter \<open>The model\<close>

section \<open>Data model\<close>

text \<open>
  The script \<^verbatim>\<open>examples/lasso/cell-lasso-stats_limited.py\<close> works on numpy
  structured arrays. A structured array has one dtype (an ordered tuple of field
  names, \<^verbatim>\<open>a.dtype.names\<close>) and a sequence of rows, each row holding one
  value per field, in the order of the names.

  Field values are floating-point numbers. Only their comparisons matter for
  the attribute-range filter, so a value is either \<open>NaN\<close>, an infinity, or a
  finite number. The arithmetic on field values is not modelled; the conversion
  of a number to the format of a field is (see \<open>as_type\<close> below).
\<close>

datatype py_error = ValueError | IndexError | AssertionError

datatype fval = NaN | NInf | Fin real | PInf

text \<open>\<^verbatim>\<open>a <= b\<close> on floats: false as soon as one side is NaN.\<close>

fun fle :: "fval \<Rightarrow> fval \<Rightarrow> bool" where
  "fle NaN b = False"
| "fle a NaN = False"
| "fle NInf b = True"
| "fle a PInf = True"
| "fle (Fin x) (Fin y) = (x \<le> y)"
| "fle a b = False"

text \<open>\<^verbatim>\<open>a >= b\<close> on floats.\<close>

definition fge :: "fval \<Rightarrow> fval \<Rightarrow> bool" where
  "fge a b = fle b a"

record 'v recarray =
  dtype_names :: "string list"
  rows :: "'v list list"

text \<open>Position of a field name in \<^verbatim>\<open>dtype.names\<close>.\<close>

fun field_index :: "string list \<Rightarrow> string \<Rightarrow> nat option" where
  "field_index [] k = None"
| "field_index (n # ns) k =
     (if n = k then Some 0 else map_option Suc (field_index ns k))"

text \<open>
  \<^verbatim>\<open>a[k]\<close>: the column of field \<open>k\<close>; numpy raises \<^verbatim>\<open>ValueError\<close>
  (no field of that name) when the dtype has no such field.
\<close>

definition getfield :: "('v, 'z) recarray_scheme \<Rightarrow> string \<Rightarrow> py_error + 'v list" where
  "getfield a k =
     (case field_index (dtype_names a) k of
        None \<Rightarrow> Inl ValueError
      | Some i \<Rightarrow> Inr (map (\<lambda>r. r ! i) (rows a)))"

text \<open>Elementwise \<^verbatim>\<open>&\<close> of two boolean arrays of one shape.\<close>

definition mask_and :: "bool list \<Rightarrow> bool list \<Rightarrow> bool list" where
  "mask_and xs ys = map (\<lambda>(x, y). x \<and> y) (zip xs ys)"

text \<open>
  \<^verbatim>\<open>a[mask]\<close>: boolean-mask indexing. The result is a new array of the same
  dtype holding the rows whose mask entry is true; a mask of another length
  raises \<^verbatim>\<open>IndexError\<close>.
\<close>

definition mask_index ::
  "('v, 'z) recarray_scheme \<Rightarrow> bool list \<Rightarrow> py_error + ('v, 'z) recarray_scheme" where
  "mask_index a m =
     (if length m \<noteq> length (rows a) then Inl IndexError
      else Inr (a\<lparr>rows := map fst (filter snd (zip (rows a) m))\<rparr>))"

text \<open>
  The event and flash arrays also carry the format of each field, in the order
  of the names: \<^verbatim>\<open>f4\<close> (float32) or \<^verbatim>\<open>f8\<close> (float64). A field of
  another numeric format is compared with a Python number in float64 and is
  given the format \<^verbatim>\<open>f8\<close> here.
\<close>

datatype ftype = F4 | F8

record float_recarray = "fval recarray" +
  dtype_formats :: "ftype list"

definition field_format :: "float_recarray \<Rightarrow> string \<Rightarrow> ftype" where
  "field_format a k =
     (case field_index (dtype_names a) k of
        None \<Rightarrow> F8
      | Some i \<Rightarrow> if i < length (dtype_formats a) then dtype_formats a ! i else F8)"

text \<open>
  When numpy compares a column with a Python number, it first chooses the type
  of the comparison from the format of the column and the value of the number
  (the value-based choice of the numpy releases that run this Python 2 script).
  A Python float is a float64. With an \<^verbatim>\<open>f8\<close> column the comparison is in
  float64 and the number is taken as it is. With an \<^verbatim>\<open>f4\<close> column the
  comparison is in float32 when the number lies strictly between \<open>-3.4e38\<close>
  and \<open>3.4e38\<close>, and the number is then rounded to float32: 24 significant
  bits, least exponent \<open>-126\<close> for a normal number, to the nearest value with
  ties to the even one. For a number outside that range, an infinity or a NaN
  the comparison is in float64, which holds every float32 value exactly, and
  the number is taken as it is.
\<close>

definition round_half_even :: "real \<Rightarrow> int" where
  "round_half_even y =
     (let f = \<lfloor>y\<rfloor> in
      if y - of_int f < 1 / 2 then f
      else if 1 / 2 < y - of_int f then f + 1
      else if even f then f else f + 1)"

text \<open>
  The exponent of the float32 values around \<open>x\<close>, their spacing, and \<open>x\<close>
  rounded to a multiple of the spacing.
\<close>

definition f4_exponent :: "real \<Rightarrow> int" where
  "f4_exponent x = max \<lfloor>log 2 \<bar>x\<bar>\<rfloor> (- 126)"

definition f4_quantum :: "real \<Rightarrow> real" where
  "f4_quantum x = 2 powr of_int (f4_exponent x - 23)"

definition f4_round :: "real \<Rightarrow> real" where
  "f4_round x = of_int (round_half_even (x / f4_quantum x)) * f4_quantum x"

definition to_float32 :: "real \<Rightarrow> real" where
  "to_float32 x = (if x = 0 then 0 else f4_round x)"

text \<open>A bound as the comparison with a column of the given format sees it.\<close>

fun as_type :: "ftype \<Rightarrow> fval \<Rightarrow> fval" where
  "as_type F8 v = v"
| "as_type F4 (Fin x) =
     (if - (34 * 10 ^ 37) < x \<and> x < 34 * 10 ^ 37 then Fin (to_float32 x) else Fin x)"
| "as_type F4 v = v"

text \<open>
  The values a column of the given format can hold: for \<^verbatim>\<open>f4\<close>, the
  numbers that the rounding to float32 leaves as they are.
\<close>

fun of_format :: "ftype \<Rightarrow> fval \<Rightarrow> bool" where
  "of_format F8 v = True"
| "of_format F4 (Fin x) = (to_float32 x = x)"
| "of_format F4 v = True"

section \<open>The attribute-range filter\<close>

text \<open>
  \<^verbatim>\<open>
  def gen_filtered_time_series(events_series, flashes_series, bounds):
      for events, flashes in zip(events_series, flashes_series):
          ev_good = np.ones(events.shape, dtype=bool)
          fl_good = np.ones(flashes.shape, dtype=bool)
          for k, (v_min, v_max) in bounds.items():
              if k in events.dtype.names:
                  ev_good &= (events[k] >= v_min) & (events[k] <= v_max)
              if k in flashes.dtype.names:
                  fl_good &= (flashes[k] >= v_min) & (flashes[k] <= v_max)
          events_filt, flashes_filt = (events[ev_good], flashes[fl_good])
          yield (events_filt, flashes_filt)
  \<close>
  The dictionary \<open>bounds\<close> is the list of its items. A comparison of a column
  with a bound, \<^verbatim>\<open>events[k] >= v_min\<close>, converts the bound to the format of
  the column and compares it with each value of the column.
\<close>

type_synonym bounds = "(string \<times> fval \<times> fval) list"

text \<open>One guarded update of a mask: the two lines for one of the arrays.\<close>

definition update_good ::
  "float_recarray \<Rightarrow> string \<Rightarrow> fval \<Rightarrow> fval \<Rightarrow> bool list \<Rightarrow> py_error + bool list" where
  "update_good arr k v_min v_max good =
     (if k \<in> set (dtype_names arr) then
        (case getfield arr k of
           Inl e \<Rightarrow> Inl e
         | Inr col \<Rightarrow>
             Inr (mask_and good
                    (mask_and (map (\<lambda>v. fge v (as_type (field_format arr k) v_min)) col)
                              (map (\<lambda>v. fle v (as_type (field_format arr k) v_max)) col))))
      else Inr good)"

text \<open>The loop over \<^verbatim>\<open>bounds.items()\<close>, carrying both masks.\<close>

fun bounds_loop ::
  "float_recarray \<Rightarrow> float_recarray \<Rightarrow> bounds \<Rightarrow> bool list \<times> bool list
     \<Rightarrow> py_error + bool list \<times> bool list" where
  "bounds_loop events flashes [] goods = Inr goods"
| "bounds_loop events flashes ((k, v_min, v_max) # bs) (ev_good, fl_good) =
     (case update_good events k v_min v_max ev_good of
        Inl e \<Rightarrow> Inl e
      | Inr ev_good' \<Rightarrow>
          (case update_good flashes k v_min v_max fl_good of
             Inl e \<Rightarrow> Inl e
           | Inr fl_good' \<Rightarrow> bounds_loop events flashes bs (ev_good', fl_good')))"

text \<open>The body of the outer loop: what is yielded for one time bin.\<close>

definition filter_bin ::
  "float_recarray \<Rightarrow> float_recarray \<Rightarrow> bounds
     \<Rightarrow> py_error + float_recarray \<times> float_recarray" where
  "filter_bin events flashes bnds =
     (case bounds_loop events flashes bnds
             (replicate (length (rows events)) True, replicate (length (rows flashes)) True) of
        Inl e \<Rightarrow> Inl e
      | Inr (ev_good, fl_good) \<Rightarrow>
          (case mask_index events ev_good of
             Inl e \<Rightarrow> Inl e
           | Inr events_filt \<Rightarrow>
               (case mask_index flashes fl_good of
                  Inl e \<Rightarrow> Inl e
                | Inr flashes_filt \<Rightarrow> Inr (events_filt, flashes_filt))))"

text \<open>
  The vocabulary of the claims. \<open>field_value names r k\<close> is the value a row
  holds for field \<open>k\<close>, when the dtype has that field; \<open>in_range\<close> is the closed
  range test; a row \<open>passes\<close> one item of the bounds when its type lacks the
  field or the value is in range; \<open>as_compared a b\<close> is the item \<open>b\<close> with its
  two bounds converted to the format that the array \<open>a\<close> has for the field.
\<close>

definition field_value :: "string list \<Rightarrow> 'v list \<Rightarrow> string \<Rightarrow> 'v option" where
  "field_value names r k = map_option (\<lambda>i. r ! i) (field_index names k)"

definition in_range :: "fval \<Rightarrow> fval \<Rightarrow> fval \<Rightarrow> bool" where
  "in_range v lo hi = (fge v lo \<and> fle v hi)"

definition passes :: "string list \<Rightarrow> fval list \<Rightarrow> string \<times> fval \<times> fval \<Rightarrow> bool" where
  "passes names r b =
     (case b of (k, lo, hi) \<Rightarrow>
        (case field_value names r k of None \<Rightarrow> True | Some v \<Rightarrow> in_range v lo hi))"

definition as_compared :: "float_recarray \<Rightarrow> string \<times> fval \<times> fval \<Rightarrow> string \<times> fval \<times> fval" where
  "as_compared a b =
     (case b of (k, lo, hi) \<Rightarrow> (k, as_type (field_format a k) lo, as_type (field_format a k) hi))"

definition retained :: "bounds \<Rightarrow> float_recarray \<Rightarrow> float_recarray" where
  "retained bnds a =
     a\<lparr>rows := filter (\<lambda>r. list_all (\<lambda>b. passes (dtype_names a) r (as_compared a b)) bnds)
                 (rows a)\<rparr>"

section \<open>The filter on the store\<close>

text \<open>
  Arrays are objects: two names may denote one array, and an in-place update
  through one name is seen through the other. The store is the list of the
  arrays allocated so far and an address is a position in it. The series hold
  addresses. In the generator the masks \<^verbatim>\<open>ev_good\<close> and \<^verbatim>\<open>fl_good\<close>
  are fresh local arrays, the only ones updated in place (\<^verbatim>\<open>&=\<close>); the source
  arrays are only read, and boolean-mask indexing (\<^verbatim>\<open>events[ev_good]\<close>)
  allocates a new array for its result.
\<close>

type_synonym addr = nat

type_synonym store = "float_recarray list"

definition alloc :: "store \<Rightarrow> float_recarray \<Rightarrow> store \<times> addr" where
  "alloc h a = (h @ [a], length h)"

fun gen_loop :: "store \<Rightarrow> (addr \<times> addr) list \<Rightarrow> bounds
                   \<Rightarrow> py_error + store \<times> (addr \<times> addr) list" where
  "gen_loop h [] bnds = Inr (h, [])"
| "gen_loop h ((events, flashes) # rest) bnds =
     (case filter_bin (h ! events) (h ! flashes) bnds of
        Inl e \<Rightarrow> Inl e
      | Inr (events_filt, flashes_filt) \<Rightarrow>
          (case alloc h events_filt of (h1, ea) \<Rightarrow>
           case alloc h1 flashes_filt of (h2, fa) \<Rightarrow>
             (case gen_loop h2 rest bnds of
                Inl e \<Rightarrow> Inl e
              | Inr (h', out) \<Rightarrow> Inr (h', (ea, fa) # out))))"

definition gen_filtered_time_series ::
  "store \<Rightarrow> addr list \<Rightarrow> addr list \<Rightarrow> bounds \<Rightarrow> py_error + store \<times> (addr \<times> addr) list" where
  "gen_filtered_time_series h events_series flashes_series bnds =
     gen_loop h (zip events_series flashes_series) bnds"

text \<open>The addresses of the arrays yielded, in order.\<close>

definition yielded :: "nat \<Rightarrow> nat \<Rightarrow> (addr \<times> addr) list" where
  "yielded base n = map (\<lambda>i. (base + 2 * i, base + 2 * i + 1)) [0..<n]"

section \<open>Writing the flash size statistics\<close>

text \<open>
  \<^verbatim>\<open>
  def write_size_stat_data(outfile, size_stats):
      stat_keys = ('start_isoformat','end_isoformat', 'number', 'mean', 'variance',
                   'skewness', 'kurtosis', 'energy', 'energy_per_flash')
      header = "# start_isoformat, end_isoformat, number, mean, variance, skewness, kurtosis, energy, energy_per_flash\n"
      line_template = "{0}, {1}, {2}, {3}, {4}, {5}, {6}, {7}, {8}\n"
      f = open(outfile, 'w')
      f.write(header)
      for stats in size_stats:
          stat_vals = [stats[k] for k in stat_keys]
          line = line_template.format(*stat_vals)
          f.write(line)
      f.close()
  \<close>
  \<open>size_stats\<close> is a structured array with one row per time bin. The file is
  the list of the strings written to it, in order. How a value is printed by
  \<^verbatim>\<open>format\<close> is a parameter, \<open>str_of\<close>.
\<close>

definition newline :: char where
  "newline = CHR 0x0A"

definition stat_keys :: "string list" where
  "stat_keys = [''start_isoformat'', ''end_isoformat'', ''number'', ''mean'', ''variance'',
                ''skewness'', ''kurtosis'', ''energy'', ''energy_per_flash'']"

definition header :: string where
  "header = ''# start_isoformat, end_isoformat, number, mean, variance, skewness, kurtosis, energy, energy_per_flash'' @ [newline]"

definition line_template :: string where
  "line_template = ''{0}, {1}, {2}, {3}, {4}, {5}, {6}, {7}, {8}'' @ [newline]"

text \<open>The value of a decimal digit.\<close>

definition digit_of :: "char \<Rightarrow> nat option" where
  "digit_of c =
     (if c = CHR ''0'' then Some 0 else if c = CHR ''1'' then Some 1
      else if c = CHR ''2'' then Some 2 else if c = CHR ''3'' then Some 3
      else if c = CHR ''4'' then Some 4 else if c = CHR ''5'' then Some 5
      else if c = CHR ''6'' then Some 6 else if c = CHR ''7'' then Some 7
      else if c = CHR ''8'' then Some 8 else if c = CHR ''9'' then Some 9
      else None)"

text \<open>
  \<^verbatim>\<open>template.format(*args)\<close>, for templates whose replacement fields are
  \<^verbatim>\<open>{d}\<close> with one decimal digit \<open>d\<close>, the arguments already printed: a
  field is replaced by the argument at that position
  (\<^verbatim>\<open>IndexError\<close> when there is none), any other use of a brace is a
  \<^verbatim>\<open>ValueError\<close>, and every other character is copied.
\<close>

fun format_template :: "string \<Rightarrow> string list \<Rightarrow> py_error + string" where
  "format_template [] args = Inr []"
| "format_template (c # cs) args =
     (if c = CHR ''{'' then
        (case cs of
           d # e # rest \<Rightarrow>
             (case digit_of d of
                None \<Rightarrow> Inl ValueError
              | Some i \<Rightarrow>
                  if e \<noteq> CHR ''}'' then Inl ValueError
                  else if length args \<le> i then Inl IndexError
                  else (case format_template rest args of
                          Inl err \<Rightarrow> Inl err
                        | Inr out \<Rightarrow> Inr (args ! i @ out)))
         | _ \<Rightarrow> Inl ValueError)
      else if c = CHR ''}'' then Inl ValueError
      else (case format_template cs args of
              Inl err \<Rightarrow> Inl err
            | Inr out \<Rightarrow> Inr (c # out)))"

text \<open>\<^verbatim>\<open>[stats[k] for k in keys]\<close> on one row of a structured array.\<close>

fun row_fields :: "string list \<Rightarrow> 'v list \<Rightarrow> string list \<Rightarrow> py_error + 'v list" where
  "row_fields names stats [] = Inr []"
| "row_fields names stats (k # ks) =
     (case field_value names stats k of
        None \<Rightarrow> Inl ValueError
      | Some v \<Rightarrow>
          (case row_fields names stats ks of
             Inl err \<Rightarrow> Inl err
           | Inr vs \<Rightarrow> Inr (v # vs)))"

text \<open>The loop over the rows, appending one line to the file for each.\<close>

fun write_stat_lines ::
  "('v \<Rightarrow> string) \<Rightarrow> string list \<Rightarrow> 'v list list \<Rightarrow> string list \<Rightarrow> py_error + string list" where
  "write_stat_lines str_of names [] f = Inr f"
| "write_stat_lines str_of names (stats # rest) f =
     (case row_fields names stats stat_keys of
        Inl err \<Rightarrow> Inl err
      | Inr stat_vals \<Rightarrow>
          (case format_template line_template (map str_of stat_vals) of
             Inl err \<Rightarrow> Inl err
           | Inr line \<Rightarrow> write_stat_lines str_of names rest (f @ [line])))"

definition write_size_stat_data :: "('v \<Rightarrow> string) \<Rightarrow> 'v recarray \<Rightarrow> py_error + string list" where
  "write_size_stat_data str_of size_stats =
     write_stat_lines str_of (dtype_names size_stats) (rows size_stats) [header]"

text \<open>\<^verbatim>\<open>', '.join(items)\<close>, and a line of comma-separated fields.\<close>

fun join_comma :: "string list \<Rightarrow> string" where
  "join_comma [] = []"
| "join_comma [x] = x"
| "join_comma (x # y # ys) = x @ '', '' @ join_comma (y # ys)"

definition csv_line :: "string list \<Rightarrow> string" where
  "csv_line items = join_comma items @ [newline]"

section \<open>Durations and normalised profiles\<close>

text \<open>
  \<^verbatim>\<open>
  durations_min = (flashes_in_poly.t_edges_seconds[1:] - flashes_in_poly.t_edges_seconds[:-1])/60.0 #minutes
  IC_norm_profiles = length_profiler.normalize_profiles(IC_profiles, durations_min)
  CG_norm_profiles = length_profiler.normalize_profiles(CG_profiles, durations_min)
  \<close>
  \<open>t_edges_seconds\<close> is the array of the bin edges, in seconds. The two slices
  drop the first and the last edge; the difference and the division are
  elementwise. Times and profile values are real numbers here: the rounding of
  floating-point arithmetic is not modelled.
\<close>

definition durations_min :: "real list \<Rightarrow> real list" where
  "durations_min t_edges_seconds =
     map (\<lambda>(later, earlier). (later - earlier) / 60)
       (zip (tl t_edges_seconds) (butlast t_edges_seconds))"

text \<open>
  Modelled from the spec: \<^verbatim>\<open>normalize_profiles\<close> is a method of
  \<^verbatim>\<open>FractalLengthProfileCalculator\<close> in \<^verbatim>\<open>lmatools.lasso.length_stats\<close>,
  which is not among the sources. The specification says that it divides each bin's
  accumulated profile value by the corresponding time-bin duration (in
  minutes), producing a per-minute rate. A profile is the list of the values of
  one time bin, one value per altitude bin; profiles and durations are paired
  in order.
\<close>

definition normalize_profiles :: "real list list \<Rightarrow> real list \<Rightarrow> real list list" where
  "normalize_profiles profiles durations =
     map (\<lambda>(profile, duration). map (\<lambda>v. v / duration) profile) (zip profiles durations)"

section \<open>Writing the length profiles\<close>

text \<open>
  \<^verbatim>\<open>
  if 'CG' in flashes_series[0].dtype.names:
      length_profiler.write_profile_data(..., outfile_base, *IC_norm_profiles, partition_kind='IC')
      length_profiler.write_profile_data(..., outfile_base, *CG_norm_profiles, partition_kind='CG')
      CG_fig.savefig(outfile_base+'_CG.pdf')
      IC_fig.savefig(outfile_base+'_IC.pdf')
  else:
      # no CG data and so the CG profiles should be empty. No need to save them
      length_profiler.write_profile_data(..., outfile_base, *IC_norm_profiles, partition_kind='total')
      IC_fig.savefig(outfile_base+'_total.pdf')
  \<close>
  The calls that write are effects, recorded in the order the script makes
  them: a profile data set written under a partition kind, and a figure saved
  under a file-name suffix. \<open>flashes_series\<close> is a tuple, and indexing an empty
  tuple raises \<^verbatim>\<open>IndexError\<close>.
\<close>

datatype figure = IC_fig | CG_fig

datatype 'p effect = WriteProfileData 'p string | SaveFig figure string

definition write_profile_outputs ::
  "('v, 'z) recarray_scheme list \<Rightarrow> 'p \<Rightarrow> 'p \<Rightarrow> py_error + 'p effect list" where
  "write_profile_outputs flashes_series IC_norm_profiles CG_norm_profiles =
     (case flashes_series of
        [] \<Rightarrow> Inl IndexError
      | flashes0 # _ \<Rightarrow>
          if ''CG'' \<in> set (dtype_names flashes0) then
            Inr [WriteProfileData IC_norm_profiles ''IC'',
                 WriteProfileData CG_norm_profiles ''CG'',
                 SaveFig CG_fig ''_CG.pdf'',
                 SaveFig IC_fig ''_IC.pdf'']
          else
            Inr [WriteProfileData IC_norm_profiles ''total'',
                 SaveFig IC_fig ''_total.pdf''])"

text \<open>The profile data sets written, with their partition kinds, and the figures saved.\<close>

fun profile_writes :: "'p effect list \<Rightarrow> ('p \<times> string) list" where
  "profile_writes [] = []"
| "profile_writes (WriteProfileData p kind # es) = (p, kind) # profile_writes es"
| "profile_writes (SaveFig f suffix # es) = profile_writes es"

fun saved_figures :: "'p effect list \<Rightarrow> (figure \<times> string) list" where
  "saved_figures [] = []"
| "saved_figures (WriteProfileData p kind # es) = saved_figures es"
| "saved_figures (SaveFig f suffix # es) = (f, suffix) # saved_figures es"

text \<open>
  The series that the branch reads is made earlier in the script, from the
  generator of the filter:
  \<^verbatim>\<open>
  filtered_time_series = gen_filtered_time_series(events_series, flashes_series, bounds)
  events_series, flashes_series = zip(*filtered_time_series)
  \<close>
  For a non-empty sequence of pairs, \<^verbatim>\<open>zip(*...)\<close> is the pair of the tuple
  of the first components and the tuple of the second ones. For an empty
  sequence it is empty, and unpacking it into two names raises
  \<^verbatim>\<open>ValueError\<close>. The statements between this line and the branch draw
  figures and compute the statistics and the profiles with methods that are
  not among the sources; the profiles they pass to the branch are parameters
  here.
\<close>

definition unpack_series :: "('a \<times> 'b) list \<Rightarrow> py_error + 'a list \<times> 'b list" where
  "unpack_series filtered_time_series =
     (case filtered_time_series of
        [] \<Rightarrow> Inl ValueError
      | _ # _ \<Rightarrow> Inr (map fst filtered_time_series, map snd filtered_time_series))"

definition profile_output_run ::
  "store \<Rightarrow> addr list \<Rightarrow> addr list \<Rightarrow> bounds \<Rightarrow> 'p \<Rightarrow> 'p \<Rightarrow> py_error + 'p effect list" where
  "profile_output_run h events_series flashes_series bnds IC_norm_profiles CG_norm_profiles =
     (case gen_filtered_time_series h events_series flashes_series bnds of
        Inl e \<Rightarrow> Inl e
      | Inr (h', filtered_time_series) \<Rightarrow>
          (case unpack_series filtered_time_series of
             Inl e \<Rightarrow> Inl e
           | Inr (events_series', flashes_series') \<Rightarrow>
               write_profile_outputs (map (\<lambda>a. h' ! a) flashes_series')
                 IC_norm_profiles CG_norm_profiles))"

section \<open>The grid-subset reporting pass\<close>

text \<open>
  \<^verbatim>\<open>
  def plot_lasso_grid_subset(fig,datalog, t,xedge,yedge,data,grid_lassos,field_name,basedate,grid_range, axis_range):
      x = (xedge[1:]+xedge[:-1])/2.0
      y = (yedge[1:]+yedge[:-1])/2.0
      xmesh, ymesh = np.meshgrid(x, y)
      assert (xmesh.shape == ymesh.shape == data.shape)
      N = data.size
      a = np.empty((N,), dtype=[('t','f4'), ('lon', 'f4'), ('lat','f4'), (field_name, data.dtype)])
      a['t'] = (t-basedate).total_seconds() + 1.0
      a['lat'] = ymesh.flatten()
      a['lon'] = xmesh.flatten()
      a[field_name] = data.flatten()
      nonzero = a[field_name] > 0
      good = grid_lassos.filter_mask(a)
      filtered = a[good]
      nonzero_filtered = a[good & nonzero]
      ...
      if nonzero_filtered.size > 0:
          v = filtered[field_name]
          vnz = nonzero_filtered[field_name]
          percentiles = scoreatpercentile(vnz, (5,50,95))
          row = map(str, (t.isoformat(), v.max(), v.sum())+tuple(percentiles))
      else:
          row = map(str, (t, 0 , 0, 0.0, 0.0, 0.0))
      datalog.write(', '.join(row)+'\n')
  \<close>
  The lines left out draw the figure and write nothing to \<open>datalog\<close>. Times
  are seconds on the real line, grid values are real numbers. A two-dimensional
  array is its shape and its elements in row-major order (\<^verbatim>\<open>flatten()\<close>).
  What the script takes from elsewhere is a parameter: the mask of the lassos,
  the percentile score, and how numbers and times are printed.
\<close>

record array2d =
  shape :: "nat \<times> nat"
  flat :: "real list"

record cell =
  cell_t :: real
  cell_lon :: real
  cell_lat :: real
  cell_val :: real

record grid_env =
  filter_mask :: "cell list \<Rightarrow> bool list"
  scoreatpercentile :: "real list \<Rightarrow> real \<Rightarrow> real"
  str_num :: "real \<Rightarrow> string"
  isoformat :: "real \<Rightarrow> string"
  str_time :: "real \<Rightarrow> string"

text \<open>\<^verbatim>\<open>(edge[1:] + edge[:-1]) / 2.0\<close>: the centres between consecutive edges.\<close>

definition centers :: "real list \<Rightarrow> real list" where
  "centers edge = map (\<lambda>(a, b). (a + b) / 2) (zip (tl edge) (butlast edge))"

text \<open>
  \<^verbatim>\<open>np.meshgrid(x, y)\<close> gives two arrays of shape \<open>(len y, len x)\<close>; flattened,
  the first repeats \<open>x\<close> for every \<open>y\<close>, the second repeats each \<open>y\<close> along a row.
\<close>

definition xmesh_flat :: "real list \<Rightarrow> real list \<Rightarrow> real list" where
  "xmesh_flat x y = concat (replicate (length y) x)"

definition ymesh_flat :: "real list \<Rightarrow> real list \<Rightarrow> real list" where
  "ymesh_flat x y = concat (map (\<lambda>v. replicate (length x) v) y)"

text \<open>The array \<open>a\<close>: one cell per grid box.\<close>

definition grid_cells :: "real \<Rightarrow> real \<Rightarrow> real list \<Rightarrow> real list \<Rightarrow> array2d \<Rightarrow> cell list" where
  "grid_cells t basedate xedge yedge data =
     (let x = centers xedge; y = centers yedge in
      map (\<lambda>((lo, la), v). \<lparr>cell_t = (t - basedate) + 1, cell_lon = lo, cell_lat = la, cell_val = v\<rparr>)
        (zip (zip (xmesh_flat x y) (ymesh_flat x y)) (flat data)))"

text \<open>\<^verbatim>\<open>a[mask]\<close> on a one-dimensional array.\<close>

definition select_mask :: "'a list \<Rightarrow> bool list \<Rightarrow> py_error + 'a list" where
  "select_mask a m =
     (if length m \<noteq> length a then Inl IndexError
      else Inr (map fst (filter snd (zip a m))))"

text \<open>\<^verbatim>\<open>v.max()\<close>: an empty array has no maximum.\<close>

fun array_max :: "real list \<Rightarrow> py_error + real" where
  "array_max [] = Inl ValueError"
| "array_max (x # xs) = Inr (fold max xs x)"

text \<open>The two selections \<open>filtered\<close> and \<open>nonzero_filtered\<close>.\<close>

definition lasso_subsets ::
  "grid_env \<Rightarrow> cell list \<Rightarrow> py_error + cell list \<times> cell list" where
  "lasso_subsets env a =
     (let nonzero = map (\<lambda>c. cell_val c > 0) a;
          good = filter_mask env a
      in case select_mask a good of
           Inl e \<Rightarrow> Inl e
         | Inr filtered \<Rightarrow>
             (case select_mask a (mask_and good nonzero) of
                Inl e \<Rightarrow> Inl e
              | Inr nonzero_filtered \<Rightarrow> Inr (filtered, nonzero_filtered)))"

text \<open>The \<^verbatim>\<open>if\<close> at the end: the row of the step.\<close>

definition grid_row :: "grid_env \<Rightarrow> real \<Rightarrow> cell list \<Rightarrow> cell list \<Rightarrow> py_error + string list" where
  "grid_row env t filtered nonzero_filtered =
     (if length nonzero_filtered > 0 then
        (let v = map cell_val filtered;
             vnz = map cell_val nonzero_filtered;
             percentiles = map (scoreatpercentile env vnz) [5, 50, 95]
         in case array_max v of
              Inl e \<Rightarrow> Inl e
            | Inr m \<Rightarrow>
                Inr ([isoformat env t, str_num env m, str_num env (sum_list v)]
                     @ map (str_num env) percentiles))
      else Inr [str_time env t, ''0'', ''0'', ''0.0'', ''0.0'', ''0.0''])"

definition plot_lasso_grid_subset ::
  "grid_env \<Rightarrow> string list \<Rightarrow> real \<Rightarrow> real list \<Rightarrow> real list \<Rightarrow> array2d \<Rightarrow> real
     \<Rightarrow> py_error + string list" where
  "plot_lasso_grid_subset env datalog t xedge yedge data basedate =
     (if (length (centers yedge), length (centers xedge)) \<noteq> shape data then Inl AssertionError
      else
        (case lasso_subsets env (grid_cells t basedate xedge yedge data) of
           Inl e \<Rightarrow> Inl e
         | Inr (filtered, nonzero_filtered) \<Rightarrow>
             (case grid_row env t filtered nonzero_filtered of
                Inl e \<Rightarrow> Inl e
              | Inr row \<Rightarrow> Inr (datalog @ [join_comma row @ [newline]]))))"

text \<open>
  \<^verbatim>\<open>
  for t, xedge, yedge, data in GC:
      if (t >= t_start) & (t <= t_end):
          plot_lasso_grid_subset(fig,datalog,t,xedge,yedge,data,grid_lassos,field_name,basedate,grid_range, axis_range)
          fig.savefig(os.path.join(fig_outdir, '{0}_{1}.png'.format(field_name, t.strftime('%Y%m%d_%H%M%S'))))
          fig.clf()
  \<close>
  The state of the loop is the data log and the list of the times whose figure
  has been saved.
\<close>

type_synonym grid_step = "real \<times> real list \<times> real list \<times> array2d"

fun grid_loop ::
  "grid_env \<Rightarrow> real \<Rightarrow> real \<Rightarrow> real \<Rightarrow> string list \<times> real list \<Rightarrow> grid_step list
     \<Rightarrow> py_error + string list \<times> real list" where
  "grid_loop env basedate t_start t_end st [] = Inr st"
| "grid_loop env basedate t_start t_end (datalog, saved) ((t, xedge, yedge, data) # steps) =
     (if t \<ge> t_start \<and> t \<le> t_end then
        (case plot_lasso_grid_subset env datalog t xedge yedge data basedate of
           Inl e \<Rightarrow> Inl e
         | Inr datalog' \<Rightarrow> grid_loop env basedate t_start t_end (datalog', saved @ [t]) steps)
      else grid_loop env basedate t_start t_end (datalog, saved) steps)"

text \<open>
  A step is well formed when the data array has the shape of the mesh (the
  assertion holds) and the mask of the lassos has one entry per cell.
\<close>

definition grid_step_ok :: "grid_env \<Rightarrow> real \<Rightarrow> grid_step \<Rightarrow> bool" where
  "grid_step_ok env basedate step =
     (case step of (t, xedge, yedge, data) \<Rightarrow>
        (length (centers yedge), length (centers xedge)) = shape data
        \<and> length (filter_mask env (grid_cells t basedate xedge yedge data))
            = length (grid_cells t basedate xedge yedge data))"

text \<open>The lasso-filtered nonzero subset of a step is empty.\<close>

definition nonzero_subset_empty :: "grid_env \<Rightarrow> real \<Rightarrow> grid_step \<Rightarrow> bool" where
  "nonzero_subset_empty env basedate step =
     (case step of (t, xedge, yedge, data) \<Rightarrow>
        (let a = grid_cells t basedate xedge yedge data
         in list_all (\<lambda>(c, g). \<not> (g \<and> cell_val c > 0)) (zip a (filter_mask env a))))"

definition in_grid_window :: "real \<Rightarrow> real \<Rightarrow> grid_step \<Rightarrow> bool" where
  "in_grid_window t_start t_end step = (case step of (t, xedge, yedge, data) \<Rightarrow> t_start \<le> t \<and> t \<le> t_end)"

text \<open>What one line of the log must be for a given step.\<close>

definition row_of_step :: "grid_env \<Rightarrow> real \<Rightarrow> string \<Rightarrow> grid_step \<Rightarrow> bool" where
  "row_of_step env basedate line step =
     (\<exists>row. line = join_comma row @ [newline] \<and> length row = 6
        \<and> (nonzero_subset_empty env basedate step \<longrightarrow>
             row = [str_time env (fst step), ''0'', ''0'', ''0.0'', ''0.0'', ''0.0'']))"

section \<open>Time windows\<close>

text \<open>
  Modelled from the spec: the time windower (the class
  \<^verbatim>\<open>TimeSeriesPolygonFlashSubset\<close> of \<^verbatim>\<open>lmatools.lasso.cell_lasso_timeseries\<close>)
  is not among the sources. The specification says that it partitions the
  half-open range \<open>[t_start, t_end)\<close> into \<open>N = ceil((t_end - t_start) / bin_width)\<close>
  consecutive bins, that the bin edges are placed at \<open>t_start + k * bin_width\<close>
  with the true end clamped to \<open>t_end\<close>, that a bin is the half-open interval
  between two consecutive edges, and that \<open>assign\<close> returns the index of the bin
  of a timestamp, or that it is out of range.
\<close>

definition n_bins :: "real \<Rightarrow> real \<Rightarrow> real \<Rightarrow> nat" where
  "n_bins t_start t_end bin_width = nat \<lceil>(t_end - t_start) / bin_width\<rceil>"

definition bin_edge :: "real \<Rightarrow> real \<Rightarrow> real \<Rightarrow> nat \<Rightarrow> real" where
  "bin_edge t_start t_end bin_width k = min (t_start + real k * bin_width) t_end"

definition assign :: "real \<Rightarrow> real \<Rightarrow> real \<Rightarrow> real \<Rightarrow> nat option" where
  "assign t_start t_end bin_width t =
     find (\<lambda>k. bin_edge t_start t_end bin_width k \<le> t \<and> t < bin_edge t_start t_end bin_width (Suc k))
       [0..<n_bins t_start t_end bin_width]"

chapter \<open>Properties\<close>

section \<open>Properties of the filter\<close>

lemma field_index_None: "field_index ns k = None \<longleftrightarrow> k \<notin> set ns"
  by (induction ns) auto

lemma length_mask_and: "length (mask_and xs ys) = min (length xs) (length ys)"
  by (simp add: mask_and_def)

lemma nth_mask_and:
  "i < length xs \<Longrightarrow> i < length ys \<Longrightarrow> mask_and xs ys ! i = (xs ! i \<and> ys ! i)"
  by (simp add: mask_and_def)

text \<open>One update keeps the length of the mask and conjoins the range test.\<close>

lemma update_good_spec:
  assumes "length good = length (rows arr)"
  shows "update_good arr k lo hi good =
           Inr (map (\<lambda>(g, r). g \<and> passes (dtype_names arr) r (as_compared arr (k, lo, hi)))
                  (zip good (rows arr)))"
proof (cases "field_index (dtype_names arr) k")
  case None
  then have "k \<notin> set (dtype_names arr)" by (simp add: field_index_None)
  with None assms show ?thesis
    by (auto simp: update_good_def passes_def as_compared_def field_value_def
          intro!: nth_equalityI)
next
  case (Some i)
  then have "k \<in> set (dtype_names arr)"
    using field_index_None [of "dtype_names arr" k] by auto
  with Some assms show ?thesis
    by (auto simp: update_good_def getfield_def passes_def as_compared_def field_value_def
          in_range_def intro!: nth_equalityI simp: length_mask_and nth_mask_and)
qed

text \<open>The whole loop conjoins the tests of all items, in both masks.\<close>

lemma bounds_loop_spec:
  assumes "length eg = length (rows events)" and "length fg = length (rows flashes)"
  shows "bounds_loop events flashes bnds (eg, fg) =
           Inr (map (\<lambda>(g, r). g \<and> list_all (\<lambda>b. passes (dtype_names events) r (as_compared events b)) bnds)
                  (zip eg (rows events)),
                map (\<lambda>(g, r). g \<and> list_all (\<lambda>b. passes (dtype_names flashes) r (as_compared flashes b)) bnds)
                  (zip fg (rows flashes)))"
  using assms
proof (induction bnds arbitrary: eg fg)
  case Nil
  then show ?case by (auto intro!: nth_equalityI)
next
  case (Cons b bnds)
  obtain k lo hi where b: "b = (k, lo, hi)" by (cases b) auto
  let ?eg = "map (\<lambda>(g, r). g \<and> passes (dtype_names events) r (as_compared events (k, lo, hi)))
               (zip eg (rows events))"
  let ?fg = "map (\<lambda>(g, r). g \<and> passes (dtype_names flashes) r (as_compared flashes (k, lo, hi)))
               (zip fg (rows flashes))"
  have le: "length ?eg = length (rows events)" and lf: "length ?fg = length (rows flashes)"
    using Cons.prems by simp_all
  have step: "bounds_loop events flashes (b # bnds) (eg, fg) =
                bounds_loop events flashes bnds (?eg, ?fg)"
    using Cons.prems by (simp add: b update_good_spec)
  have e: "map (\<lambda>(g, r). g \<and> list_all (\<lambda>b. passes (dtype_names events) r (as_compared events b)) bnds)
             (zip ?eg (rows events))
           = map (\<lambda>(g, r). g \<and> list_all (\<lambda>b. passes (dtype_names events) r (as_compared events b)) (b # bnds))
               (zip eg (rows events))"
    using Cons.prems by (auto simp: b intro!: nth_equalityI)
  have f: "map (\<lambda>(g, r). g \<and> list_all (\<lambda>b. passes (dtype_names flashes) r (as_compared flashes b)) bnds)
             (zip ?fg (rows flashes))
           = map (\<lambda>(g, r). g \<and> list_all (\<lambda>b. passes (dtype_names flashes) r (as_compared flashes b)) (b # bnds))
               (zip fg (rows flashes))"
    using Cons.prems by (auto simp: b intro!: nth_equalityI)
  show ?case
    unfolding step Cons.IH [OF le lf] e f ..
qed

text \<open>Indexing with the mask of a predicate is filtering by that predicate.\<close>

lemma mask_select_filter:
  "map fst (filter snd (zip rs (map (\<lambda>(g, r). g \<and> P r) (zip (replicate (length rs) True) rs))))
     = filter P rs"
proof -
  have "map (\<lambda>(g, r). g \<and> P r) (zip (replicate (length rs) True) rs) = map P rs"
    by (auto intro!: nth_equalityI)
  moreover have "map fst (filter snd (zip rs (map P rs))) = filter P rs"
    by (induction rs) auto
  ultimately show ?thesis by simp
qed

lemma filter_bin_retained:
  "filter_bin events flashes bnds = Inr (retained bnds events, retained bnds flashes)"
  by (simp add: filter_bin_def bounds_loop_spec mask_index_def mask_select_filter retained_def)



text \<open>
  The conversion to float32 keeps the order: rounding to the nearest multiple
  of the spacing is monotone within one exponent, and between two exponents the
  rounded values stay on their sides of the power of two that separates them.
\<close>

lemma round_half_even_floor: "\<lfloor>y\<rfloor> \<le> round_half_even y \<and> round_half_even y \<le> \<lfloor>y\<rfloor> + 1"
  by (simp add: round_half_even_def Let_def)

lemma round_half_even_of_int: "round_half_even (of_int n) = n"
  by (simp add: round_half_even_def Let_def)

lemma round_half_even_mono:
  assumes "a \<le> b"
  shows "round_half_even a \<le> round_half_even b"
proof (cases "\<lfloor>a\<rfloor> = \<lfloor>b\<rfloor>")
  case True
  then show ?thesis
    using assms by (auto simp: round_half_even_def Let_def)
next
  case False
  with assms have "\<lfloor>a\<rfloor> < \<lfloor>b\<rfloor>"
    using floor_mono [of a b] by linarith
  then have "\<lfloor>a\<rfloor> + 1 \<le> \<lfloor>b\<rfloor>" by simp
  with round_half_even_floor [of a] round_half_even_floor [of b] show ?thesis
    by linarith
qed

lemma floor_minus_non_int:
  fixes y :: real
  assumes "of_int f < y" and "y < of_int f + 1"
  shows "\<lfloor>- y\<rfloor> = - f - 1"
proof -
  have "of_int (- f - 1) \<le> - y \<and> - y < of_int (- f - 1) + 1"
    using assms by simp
  then show ?thesis by (simp only: floor_eq_iff)
qed

lemma round_half_even_minus: "round_half_even (- y) = - round_half_even y"
proof (cases "y = of_int \<lfloor>y\<rfloor>")
  case True
  then obtain n where "y = of_int n" by blast
  then have "round_half_even y = n" "round_half_even (- y) = - n"
    using round_half_even_of_int [of n] round_half_even_of_int [of "- n"] by simp_all
  then show ?thesis by simp
next
  case False
  define f where "f = \<lfloor>y\<rfloor>"
  have le: "of_int f \<le> y" and lt: "y < of_int f + 1"
    unfolding f_def by linarith+
  from False have "y \<noteq> of_int f"
    unfolding f_def .
  with le have "of_int f < y" by linarith
  note frac = this lt
  have fl: "\<lfloor>- y\<rfloor> = - f - 1"
    using frac by (rule floor_minus_non_int)
  have "round_half_even (- y) = - round_half_even y"
    unfolding round_half_even_def Let_def fl f_def [symmetric]
    using frac by (auto simp: algebra_simps)
  then show ?thesis .
qed

lemma round_half_even_le: "y \<le> of_int n \<Longrightarrow> round_half_even y \<le> n"
  using round_half_even_mono [of y "of_int n"] by (simp add: round_half_even_of_int)

lemma round_half_even_ge: "of_int n \<le> y \<Longrightarrow> n \<le> round_half_even y"
  using round_half_even_mono [of "of_int n" y] by (simp add: round_half_even_of_int)

lemma f4_quantum_pos: "0 < f4_quantum x"
  by (simp add: f4_quantum_def)

lemma f4_quantum_minus: "f4_quantum (- x) = f4_quantum x"
  by (simp add: f4_quantum_def f4_exponent_def)

lemma f4_round_minus: "f4_round (- x) = - f4_round x"
  by (simp add: f4_round_def f4_quantum_minus round_half_even_minus)

lemma f4_exponent_mono:
  assumes "0 < x" and "x \<le> y"
  shows "f4_exponent x \<le> f4_exponent y"
proof -
  have "log 2 x \<le> log 2 y" using assms by simp
  then have "\<lfloor>log 2 x\<rfloor> \<le> \<lfloor>log 2 y\<rfloor>" by (rule floor_mono)
  with assms show ?thesis by (simp add: f4_exponent_def)
qed

lemma below_next_binade:
  assumes "0 < x"
  shows "x < 2 powr of_int (f4_exponent x + 1)"
proof -
  have "x < 2 powr of_int (\<lfloor>log 2 x\<rfloor> + 1)"
    using assms floor_log_eq_powr_iff [of x 2 "\<lfloor>log 2 x\<rfloor>"] by simp
  also have "\<dots> \<le> 2 powr of_int (f4_exponent x + 1)"
    using assms by (simp add: f4_exponent_def)
  finally show ?thesis .
qed

lemma at_least_binade:
  assumes "0 < y" and "- 126 < f4_exponent y"
  shows "2 powr of_int (f4_exponent y) \<le> y"
proof -
  from assms have "f4_exponent y = \<lfloor>log 2 y\<rfloor>"
    by (simp add: f4_exponent_def)
  moreover have "2 powr of_int \<lfloor>log 2 y\<rfloor> \<le> y"
    using assms(1) floor_log_eq_powr_iff [of y 2 "\<lfloor>log 2 y\<rfloor>"] by simp
  ultimately show ?thesis by simp
qed

lemma f4_round_upper:
  assumes "0 < x"
  shows "f4_round x \<le> 2 powr of_int (f4_exponent x + 1)"
proof -
  have split: "(2::real) powr of_int (f4_exponent x + 1) = 2 ^ 24 * f4_quantum x"
  proof -
    have "(2::real) powr of_int (f4_exponent x + 1) = 2 powr (24 + of_int (f4_exponent x - 23))"
      by (simp add: add.commute)
    also have "\<dots> = 2 powr 24 * f4_quantum x"
      unfolding f4_quantum_def by (rule powr_add)
    finally show ?thesis by simp
  qed
  have "x < 2 ^ 24 * f4_quantum x"
    using below_next_binade [OF assms] unfolding split .
  then have "x / f4_quantum x \<le> 2 ^ 24"
    using f4_quantum_pos [of x] by (simp add: pos_divide_le_eq)
  then have "x / f4_quantum x \<le> of_int (2 ^ 24)" by simp
  then have "round_half_even (x / f4_quantum x) \<le> 2 ^ 24"
    by (rule round_half_even_le)
  then have "of_int (round_half_even (x / f4_quantum x)) \<le> (2 ^ 24 :: real)"
    by (metis of_int_le_iff of_int_numeral of_int_power)
  then have "f4_round x \<le> 2 ^ 24 * f4_quantum x"
    using f4_quantum_pos [of x] by (simp add: f4_round_def)
  then show ?thesis
    unfolding split .
qed

lemma f4_round_lower:
  assumes "0 < y" and "- 126 < f4_exponent y"
  shows "2 powr of_int (f4_exponent y) \<le> f4_round y"
proof -
  have split: "(2::real) powr of_int (f4_exponent y) = 2 ^ 23 * f4_quantum y"
  proof -
    have "(2::real) powr of_int (f4_exponent y) = 2 powr (23 + of_int (f4_exponent y - 23))"
      by simp
    also have "\<dots> = 2 powr 23 * f4_quantum y"
      unfolding f4_quantum_def by (rule powr_add)
    finally show ?thesis by simp
  qed
  have "2 ^ 23 * f4_quantum y \<le> y"
    using at_least_binade [OF assms] unfolding split .
  then have "2 ^ 23 \<le> y / f4_quantum y"
    using f4_quantum_pos [of y] by (simp add: pos_le_divide_eq)
  then have "of_int (2 ^ 23) \<le> y / f4_quantum y" by simp
  then have "2 ^ 23 \<le> round_half_even (y / f4_quantum y)"
    by (rule round_half_even_ge)
  then have "(2 ^ 23 :: real) \<le> of_int (round_half_even (y / f4_quantum y))"
    by (metis of_int_le_iff of_int_numeral of_int_power)
  then have "2 ^ 23 * f4_quantum y \<le> f4_round y"
    using f4_quantum_pos [of y] by (simp add: f4_round_def)
  then show ?thesis
    unfolding split .
qed

lemma f4_round_nonneg:
  assumes "0 < x"
  shows "0 \<le> f4_round x"
proof -
  have "of_int 0 \<le> x / f4_quantum x"
    using assms f4_quantum_pos [of x] by simp
  then have "0 \<le> round_half_even (x / f4_quantum x)"
    by (rule round_half_even_ge)
  then show ?thesis
    using f4_quantum_pos [of x] by (simp add: f4_round_def)
qed

lemma f4_round_mono_pos:
  assumes "0 < x" and "x \<le> y"
  shows "f4_round x \<le> f4_round y"
proof (cases "f4_exponent x = f4_exponent y")
  case True
  then have q: "f4_quantum x = f4_quantum y"
    by (simp add: f4_quantum_def)
  have "x / f4_quantum y \<le> y / f4_quantum y"
    using assms(2) f4_quantum_pos [of y] by (simp add: divide_right_mono)
  then have "round_half_even (x / f4_quantum y) \<le> round_half_even (y / f4_quantum y)"
    by (rule round_half_even_mono)
  then show ?thesis
    using f4_quantum_pos [of y] by (simp add: f4_round_def q)
next
  case False
  with f4_exponent_mono [OF assms] have less: "f4_exponent x + 1 \<le> f4_exponent y"
    by simp
  have "- 126 \<le> f4_exponent x" by (simp add: f4_exponent_def)
  with less have normal: "- 126 < f4_exponent y" by simp
  have ypos: "0 < y" using assms by simp
  have "f4_round x \<le> 2 powr of_int (f4_exponent x + 1)"
    using assms(1) by (rule f4_round_upper)
  also have "\<dots> \<le> 2 powr of_int (f4_exponent y)"
    using less by simp
  also have "\<dots> \<le> f4_round y"
    using ypos normal by (rule f4_round_lower)
  finally show ?thesis .
qed

text \<open>The rounding with zero mapped to zero, monotone on the whole line.\<close>

lemma f4_round_mono:
  assumes "x \<noteq> 0" and "y \<noteq> 0" and "x \<le> y"
  shows "f4_round x \<le> f4_round y"
proof -
  consider (pos) "0 < x" | (neg) "y < 0" | (mixed) "x < 0" "0 < y"
    using assms by linarith
  then show ?thesis
  proof cases
    case pos
    then show ?thesis using assms(3) by (rule f4_round_mono_pos)
  next
    case neg
    then have "0 < - y" "- y \<le> - x" using assms(3) by simp_all
    then have "f4_round (- y) \<le> f4_round (- x)" by (rule f4_round_mono_pos)
    then show ?thesis by (simp add: f4_round_minus)
  next
    case mixed
    have "0 \<le> f4_round (- x)" using mixed(1) by (simp add: f4_round_nonneg)
    then have "f4_round x \<le> 0" by (simp add: f4_round_minus)
    also have "0 \<le> f4_round y" using mixed(2) by (rule f4_round_nonneg)
    finally show ?thesis .
  qed
qed

lemma f4_round_sign:
  "(0 < x \<longrightarrow> 0 \<le> f4_round x) \<and> (x < 0 \<longrightarrow> f4_round x \<le> 0)"
  using f4_round_nonneg [of x] f4_round_nonneg [of "- x"] by (simp add: f4_round_minus)

lemma to_float32_mono:
  assumes "x \<le> y"
  shows "to_float32 x \<le> to_float32 y"
proof -
  consider (zz) "x = 0" "y = 0" | (zy) "x = 0" "0 < y" | (xz) "x < 0" "y = 0"
    | (nn) "x \<noteq> 0" "y \<noteq> 0"
    using assms by linarith
  then show ?thesis
  proof cases
    case zz
    then show ?thesis by (simp add: to_float32_def)
  next
    case zy
    with f4_round_nonneg [of y] show ?thesis
      by (simp add: to_float32_def)
  next
    case xz
    with f4_round_sign [of x] show ?thesis
      by (simp add: to_float32_def)
  next
    case nn
    with f4_round_mono [OF nn assms] show ?thesis
      by (simp add: to_float32_def)
  qed
qed

text \<open>
  A stored value is unchanged by the conversion, and the conversion of a bound
  stays on its side of a stored value.
\<close>

lemma as_type_fixed: "of_format t a \<Longrightarrow> as_type t a = a"
  by (cases t; cases a) simp_all

lemma as_type_above:
  assumes "fle a b" and "of_format t a"
  shows "fle a (as_type t b)"
proof (cases t)
  case F8
  with assms show ?thesis by simp
next
  case F4
  show ?thesis
  proof (cases a; cases b)
    fix x y assume ab: "a = Fin x" "b = Fin y"
    with assms F4 have "x \<le> y" "to_float32 x = x" by simp_all
    with to_float32_mono [of x y] have "x \<le> to_float32 y" by simp
    with \<open>x \<le> y\<close> show ?thesis by (simp add: ab F4)
  qed (use assms F4 in simp_all)
qed

lemma as_type_below:
  assumes "fle a b" and "of_format t b"
  shows "fle (as_type t a) b"
proof (cases t)
  case F8
  with assms show ?thesis by simp
next
  case F4
  show ?thesis
  proof (cases a; cases b)
    fix x y assume ab: "a = Fin x" "b = Fin y"
    with assms F4 have "x \<le> y" "to_float32 y = y" by simp_all
    with to_float32_mono [of x y] have "to_float32 x \<le> y" by simp
    with \<open>x \<le> y\<close> show ?thesis by (simp add: ab F4)
  qed (use assms F4 in simp_all)
qed

text \<open>The conversion of two numbers to float32, by the definition.\<close>

lemma f4_quantum_binade_24:
  assumes "2 ^ 24 \<le> x" and "x < 2 ^ 25"
  shows "f4_quantum x = 2"
proof -
  have pos: "0 < x"
    using assms(1) by (simp add: less_le_trans [of 0 "2 ^ 24"])
  have "\<lfloor>log 2 x\<rfloor> = 24"
    using assms pos by (simp add: floor_log_eq_powr_iff)
  then show ?thesis
    using pos by (simp add: f4_quantum_def f4_exponent_def)
qed


lemma to_float32_20000000: "to_float32 20000000 = 20000000"
proof -
  have q: "f4_quantum 20000000 = 2"
    by (rule f4_quantum_binade_24) simp_all
  have "round_half_even (20000000 / 2) = 10000000"
    by (simp add: round_half_even_def Let_def)
  then show ?thesis
    by (simp add: to_float32_def f4_round_def q)
qed

lemma field_value_None: "field_value names r k = None \<longleftrightarrow> k \<notin> set names"
  by (simp add: field_value_def field_index_None)

text \<open>What \<open>passes\<close> says, spelled out: only a field of the row's type constrains.\<close>

lemma passes_iff:
  "passes names r (k, lo, hi) \<longleftrightarrow>
     (k \<in> set names \<longrightarrow> (\<exists>v. field_value names r k = Some v \<and> fge v lo \<and> fle v hi))"
  using field_value_None [of names r k]
  by (auto simp: passes_def in_range_def split: option.splits)

lemma fle_refl: "v \<noteq> NaN \<Longrightarrow> fle v v"
  by (cases v) auto

lemma fle_not_NaN: "fle a b \<Longrightarrow> a \<noteq> NaN \<and> b \<noteq> NaN"
  by (cases a; cases b) auto

lemma not_in_range_NaN: "\<not> in_range NaN lo hi"
  by (simp add: in_range_def fge_def)




text \<open>
  Claim C8. The bounds are inclusive on both ends. Take an item \<open>(k, lo, hi)\<close>
  of the bounds with \<open>lo \<le> hi\<close> and a row of either array whose type has the
  field \<open>k\<close>, whose value for \<open>k\<close> is exactly \<open>lo\<close> or exactly \<open>hi\<close> (a value
  of the field's format, as every stored value is), and which passes the other
  items: the row is in the filtered array.
\<close>

theorem C8_bounds_inclusive:
  assumes "filter_bin events flashes bnds = Inr (events_filt, flashes_filt)"
    and "(k, lo, hi) \<in> set bnds" and "fle lo hi"
  shows "(r \<in> set (rows events)
          \<and> (field_value (dtype_names events) r k = Some lo
               \<and> of_format (field_format events k) lo
             \<or> field_value (dtype_names events) r k = Some hi
               \<and> of_format (field_format events k) hi)
          \<and> (\<forall>b \<in> set bnds. b \<noteq> (k, lo, hi) \<longrightarrow>
                passes (dtype_names events) r (as_compared events b))
          \<longrightarrow> r \<in> set (rows events_filt))
       \<and> (r \<in> set (rows flashes)
          \<and> (field_value (dtype_names flashes) r k = Some lo
               \<and> of_format (field_format flashes k) lo
             \<or> field_value (dtype_names flashes) r k = Some hi
               \<and> of_format (field_format flashes k) hi)
          \<and> (\<forall>b \<in> set bnds. b \<noteq> (k, lo, hi) \<longrightarrow>
                passes (dtype_names flashes) r (as_compared flashes b))
          \<longrightarrow> r \<in> set (rows flashes_filt))"
proof -
  have out: "events_filt = retained bnds events" "flashes_filt = retained bnds flashes"
    using assms(1) by (simp_all add: filter_bin_retained)
  have keep: "r \<in> set (rows (retained bnds a))"
    if r_in: "r \<in> set (rows a)"
      and val: "field_value (dtype_names a) r k = Some lo \<and> of_format (field_format a k) lo
                \<or> field_value (dtype_names a) r k = Some hi \<and> of_format (field_format a k) hi"
      and others: "\<forall>b \<in> set bnds. b \<noteq> (k, lo, hi) \<longrightarrow> passes (dtype_names a) r (as_compared a b)"
    for a :: float_recarray
  proof -
    let ?lo = "as_type (field_format a k) lo" and ?hi = "as_type (field_format a k) hi"
    have here: "passes (dtype_names a) r (as_compared a (k, lo, hi))"
    proof -
      from val consider
          (at_lo) "field_value (dtype_names a) r k = Some lo" "of_format (field_format a k) lo"
        | (at_hi) "field_value (dtype_names a) r k = Some hi" "of_format (field_format a k) hi"
        by blast
      then show ?thesis
      proof cases
        case at_lo
        from at_lo(2) have fixed: "?lo = lo" by (rule as_type_fixed)
        from assms(3) have "lo \<noteq> NaN" by (simp add: fle_not_NaN)
        then have "fle lo lo" by (rule fle_refl)
        moreover from assms(3) at_lo(2) have "fle lo ?hi" by (rule as_type_above)
        ultimately have "in_range lo ?lo ?hi"
          by (simp add: in_range_def fge_def fixed)
        with at_lo(1) show ?thesis by (simp add: passes_def as_compared_def)
      next
        case at_hi
        from at_hi(2) have fixed: "?hi = hi" by (rule as_type_fixed)
        from assms(3) have "hi \<noteq> NaN" by (simp add: fle_not_NaN)
        then have "fle hi hi" by (rule fle_refl)
        moreover from assms(3) at_hi(2) have "fle ?lo hi" by (rule as_type_below)
        ultimately have "in_range hi ?lo ?hi"
          by (simp add: in_range_def fge_def fixed)
        with at_hi(1) show ?thesis by (simp add: passes_def as_compared_def)
      qed
    qed
    have "passes (dtype_names a) r (as_compared a b)" if b: "b \<in> set bnds" for b
    proof (cases "b = (k, lo, hi)")
      case True
      with here show ?thesis by simp
    next
      case False
      from bspec [OF others b] False show ?thesis by simp
    qed
    with r_in show ?thesis by (simp add: retained_def list_all_iff)
  qed
  show ?thesis
    unfolding out
  proof (intro conjI impI)
    assume "r \<in> set (rows events)
          \<and> (field_value (dtype_names events) r k = Some lo
               \<and> of_format (field_format events k) lo
             \<or> field_value (dtype_names events) r k = Some hi
               \<and> of_format (field_format events k) hi)
          \<and> (\<forall>b \<in> set bnds. b \<noteq> (k, lo, hi) \<longrightarrow>
                passes (dtype_names events) r (as_compared events b))"
    then show "r \<in> set (rows (retained bnds events))"
      using keep [of events] by simp
  next
    assume "r \<in> set (rows flashes)
          \<and> (field_value (dtype_names flashes) r k = Some lo
               \<and> of_format (field_format flashes k) lo
             \<or> field_value (dtype_names flashes) r k = Some hi
               \<and> of_format (field_format flashes k) hi)
          \<and> (\<forall>b \<in> set bnds. b \<noteq> (k, lo, hi) \<longrightarrow>
                passes (dtype_names flashes) r (as_compared flashes b))"
    then show "r \<in> set (rows (retained bnds flashes))"
      using keep [of flashes] by simp
  qed
qed

theorem C8_bounds_inclusive_witness:
  "filter_bin
     \<lparr>dtype_names = [''time'', ''area''], rows = [[Fin 1, Fin 0], [Fin 2, Fin 20000000]],
      dtype_formats = [F8, F4]\<rparr>
     \<lparr>dtype_names = [''start'', ''area''], rows = [[Fin 1, Fin 0], [Fin 2, Fin 20000001]],
      dtype_formats = [F8, F8]\<rparr>
     [(''area'', Fin 0, Fin 20000000)]
   = Inr (\<lparr>dtype_names = [''time'', ''area''], rows = [[Fin 1, Fin 0], [Fin 2, Fin 20000000]],
           dtype_formats = [F8, F4]\<rparr>,
          \<lparr>dtype_names = [''start'', ''area''], rows = [[Fin 1, Fin 0]],
           dtype_formats = [F8, F8]\<rparr>)
   \<and> fle (Fin 0) (Fin 20000000)
   \<and> of_format F4 (Fin 0)
   \<and> [Fin 1, Fin 0] \<in> set (rows \<lparr>dtype_names = [''time'', ''area''],
                                  rows = [[Fin 1, Fin 0], [Fin 2, Fin 20000000]],
                                  dtype_formats = [F8, F4]\<rparr>)
   \<and> [Fin 1, Fin 0] \<in> set (rows \<lparr>dtype_names = [''start'', ''area''], rows = [[Fin 1, Fin 0]],
                                  dtype_formats = [F8, F8]\<rparr>)"
proof -
  have zero: "to_float32 0 = 0"
    by (simp add: to_float32_def)
  have run: "filter_bin
     \<lparr>dtype_names = [''time'', ''area''], rows = [[Fin 1, Fin 0], [Fin 2, Fin 20000000]],
      dtype_formats = [F8, F4]\<rparr>
     \<lparr>dtype_names = [''start'', ''area''], rows = [[Fin 1, Fin 0], [Fin 2, Fin 20000001]],
      dtype_formats = [F8, F8]\<rparr>
     [(''area'', Fin 0, Fin 20000000)]
   = Inr (\<lparr>dtype_names = [''time'', ''area''], rows = [[Fin 1, Fin 0], [Fin 2, Fin 20000000]],
           dtype_formats = [F8, F4]\<rparr>,
          \<lparr>dtype_names = [''start'', ''area''], rows = [[Fin 1, Fin 0]],
           dtype_formats = [F8, F8]\<rparr>)"
    by (simp add: filter_bin_retained retained_def passes_def as_compared_def field_format_def
          field_value_def in_range_def fge_def zero to_float32_20000000)
  have item: "(''area'', Fin 0, Fin 20000000) \<in> set [(''area'', Fin 0, Fin 20000000)]" by simp
  have order: "fle (Fin 0) (Fin 20000000)" by simp
  show ?thesis
    using run order zero C8_bounds_inclusive [OF run item order, of "[Fin 1, Fin 0]"]
    by (simp add: field_value_def field_format_def)
qed

text \<open>
  Claim C9. A row whose type has a bounded field and whose value for that
  field is NaN is excluded, whatever the two bound values are: it is in neither
  filtered array.
\<close>

theorem C9_nan_excluded:
  assumes "filter_bin events flashes bnds = Inr (events_filt, flashes_filt)"
    and "(k, lo, hi) \<in> set bnds"
  shows "(field_value (dtype_names events) r k = Some NaN \<longrightarrow> r \<notin> set (rows events_filt))
       \<and> (field_value (dtype_names flashes) r k = Some NaN \<longrightarrow> r \<notin> set (rows flashes_filt))"
proof -
  have out: "events_filt = retained bnds events" "flashes_filt = retained bnds flashes"
    using assms(1) by (simp_all add: filter_bin_retained)
  have drop: "r \<notin> set (rows (retained bnds a))"
    if "field_value (dtype_names a) r k = Some NaN" for a :: float_recarray
  proof -
    have "\<not> passes (dtype_names a) r (as_compared a (k, lo, hi))"
      using that by (simp add: passes_def as_compared_def not_in_range_NaN)
    with assms(2) show ?thesis
      by (auto simp: retained_def list_all_iff)
  qed
  show ?thesis
    unfolding out using drop [of events] drop [of flashes] by blast
qed

theorem C9_nan_excluded_witness:
  "filter_bin
     \<lparr>dtype_names = [''time'', ''power''], rows = [[Fin 1, NaN], [Fin 2, Fin 5]],
      dtype_formats = [F8, F4]\<rparr>
     \<lparr>dtype_names = [''start'', ''power''], rows = [[Fin 1, NaN]], dtype_formats = [F8, F8]\<rparr>
     [(''power'', NInf, PInf)]
   = Inr (\<lparr>dtype_names = [''time'', ''power''], rows = [[Fin 2, Fin 5]],
           dtype_formats = [F8, F4]\<rparr>,
          \<lparr>dtype_names = [''start'', ''power''], rows = [], dtype_formats = [F8, F8]\<rparr>)
   \<and> [Fin 1, NaN] \<notin> set (rows \<lparr>dtype_names = [''time'', ''power''], rows = [[Fin 2, Fin 5]],
                                    dtype_formats = [F8, F4]\<rparr>)
   \<and> [Fin 1, NaN] \<notin> set (rows \<lparr>dtype_names = [''start'', ''power''], rows = [],
                                    dtype_formats = [F8, F8]\<rparr>)"
proof -
  have run: "filter_bin
     \<lparr>dtype_names = [''time'', ''power''], rows = [[Fin 1, NaN], [Fin 2, Fin 5]],
      dtype_formats = [F8, F4]\<rparr>
     \<lparr>dtype_names = [''start'', ''power''], rows = [[Fin 1, NaN]], dtype_formats = [F8, F8]\<rparr>
     [(''power'', NInf, PInf)]
   = Inr (\<lparr>dtype_names = [''time'', ''power''], rows = [[Fin 2, Fin 5]],
           dtype_formats = [F8, F4]\<rparr>,
          \<lparr>dtype_names = [''start'', ''power''], rows = [], dtype_formats = [F8, F8]\<rparr>)"
    by (simp add: filter_bin_retained retained_def passes_def as_compared_def field_format_def
          field_value_def in_range_def fge_def)
  have item: "(''power'', NInf, PInf) \<in> set [(''power'', NInf, PInf)]" by simp
  show ?thesis
    using run C9_nan_excluded [OF run item, of "[Fin 1, NaN]"]
    by (simp add: field_value_def)
qed

section \<open>Properties of the filter on the store\<close>

lemma yielded_Suc: "yielded base (Suc n) = (base, base + 1) # yielded (base + 2) n"
  by (simp add: yielded_def upt_rec [of 0] map_Suc_upt [symmetric] del: upt_Suc)

lemma gen_loop_extends:
  "\<exists>ext. gen_loop h ps bnds = Inr (h @ ext, yielded (length h) (length ps))
         \<and> length ext = 2 * length ps"
proof (induction ps arbitrary: h)
  case Nil
  show ?case by (simp add: yielded_def)
next
  case (Cons p ps)
  obtain e f where p: "p = (e, f)" by (cases p)
  let ?h2 = "h @ [retained bnds (h ! e), retained bnds (h ! f)]"
  from Cons.IH [of ?h2] obtain ext where
    ext: "gen_loop ?h2 ps bnds = Inr (?h2 @ ext, yielded (length ?h2) (length ps))"
      "length ext = 2 * length ps" by blast
  have "gen_loop h (p # ps) bnds
          = Inr (h @ ([retained bnds (h ! e), retained bnds (h ! f)] @ ext),
                 yielded (length h) (length (p # ps)))"
    using ext(1) by (simp add: p filter_bin_retained alloc_def yielded_Suc)
  moreover have "length ([retained bnds (h ! e), retained bnds (h ! f)] @ ext) = 2 * length (p # ps)"
    using ext(2) by simp
  ultimately show ?case by blast
qed

lemma yielded_bounds:
  "(ea, fa) \<in> set (yielded base n) \<Longrightarrow> base \<le> ea \<and> ea < base + 2 * n \<and> base \<le> fa \<and> fa < base + 2 * n \<and> ea \<noteq> fa"
  by (auto simp: yielded_def)

lemma distinct_yielded: "distinct (concat (map (\<lambda>(a, b). [a, b]) (yielded base n)))"
proof (induction n arbitrary: base)
  case 0
  show ?case by (simp add: yielded_def)
next
  case (Suc n)
  have "base \<noteq> a \<and> base \<noteq> b \<and> base + 1 \<noteq> a \<and> base + 1 \<noteq> b" if "(a, b) \<in> set (yielded (base + 2) n)" for a b
    using yielded_bounds [OF that] by auto
  with Suc [of "base + 2"] show ?case
    by (auto simp: yielded_Suc)
qed

text \<open>
  Claim C7. Running the filter over the series raises no error and changes
  no array that existed before: every address of the old store holds the same
  array afterwards. One pair of arrays is yielded per bin; the yielded arrays
  are new objects (their addresses lie beyond the old store), pairwise
  distinct, so an update of a yielded array, whatever it writes, leaves every
  source array as it was.
\<close>

theorem C7_filter_does_not_mutate_sources:
  "\<exists>h' out.
     gen_filtered_time_series h events_series flashes_series bnds = Inr (h', out)
     \<and> length out = min (length events_series) (length flashes_series)
     \<and> (\<forall>a < length h. h' ! a = h ! a)
     \<and> (\<forall>(ea, fa) \<in> set out.
           length h \<le> ea \<and> ea < length h' \<and> length h \<le> fa \<and> fa < length h')
     \<and> distinct (concat (map (\<lambda>(ea, fa). [ea, fa]) out))
     \<and> (\<forall>(ea, fa) \<in> set out. \<forall>x. \<forall>a < length h.
           (h'[ea := x]) ! a = h ! a \<and> (h'[fa := x]) ! a = h ! a)"
proof -
  let ?ps = "zip events_series flashes_series"
  obtain ext where run: "gen_loop h ?ps bnds = Inr (h @ ext, yielded (length h) (length ?ps))"
    and len: "length ext = 2 * length ?ps"
    using gen_loop_extends [of h ?ps bnds] by blast
  let ?h' = "h @ ext" and ?out = "yielded (length h) (length ?ps)"
  have 1: "gen_filtered_time_series h events_series flashes_series bnds = Inr (?h', ?out)"
    by (simp add: gen_filtered_time_series_def run)
  have 2: "length ?out = min (length events_series) (length flashes_series)"
    by (simp add: yielded_def)
  have 3: "\<forall>a < length h. ?h' ! a = h ! a"
    by (simp add: nth_append)
  have fresh: "length h \<le> ea \<and> ea < length ?h' \<and> length h \<le> fa \<and> fa < length ?h'"
    if "(ea, fa) \<in> set ?out" for ea fa
    using yielded_bounds [OF that] len by simp
  then have 4: "\<forall>(ea, fa) \<in> set ?out.
           length h \<le> ea \<and> ea < length ?h' \<and> length h \<le> fa \<and> fa < length ?h'"
    by fast
  have 5: "distinct (concat (map (\<lambda>(ea, fa). [ea, fa]) ?out))"
    by (rule distinct_yielded)
  have "(?h'[ea := x]) ! a = h ! a \<and> (?h'[fa := x]) ! a = h ! a"
    if "(ea, fa) \<in> set ?out" and "a < length h" for ea fa x a
    using fresh [OF that(1)] that(2) by (simp add: nth_append)
  then have 6: "\<forall>(ea, fa) \<in> set ?out. \<forall>x. \<forall>a < length h.
           (?h'[ea := x]) ! a = h ! a \<and> (?h'[fa := x]) ! a = h ! a"
    by fast
  from 1 2 3 4 5 6 show ?thesis by blast
qed

theorem C7_filter_witness:
  "gen_filtered_time_series
     [\<lparr>dtype_names = [''time'', ''power''], rows = [[Fin 1, Fin 5]], dtype_formats = [F8, F8]\<rparr>,
      \<lparr>dtype_names = [''start'', ''area''], rows = [[Fin 1, Fin 3], [Fin 2, Fin (- 1)]],
       dtype_formats = [F8, F8]\<rparr>]
     [0] [1] [(''area'', Fin 0, Fin 10)]
   = Inr ([\<lparr>dtype_names = [''time'', ''power''], rows = [[Fin 1, Fin 5]], dtype_formats = [F8, F8]\<rparr>,
           \<lparr>dtype_names = [''start'', ''area''], rows = [[Fin 1, Fin 3], [Fin 2, Fin (- 1)]],
            dtype_formats = [F8, F8]\<rparr>,
           \<lparr>dtype_names = [''time'', ''power''], rows = [[Fin 1, Fin 5]], dtype_formats = [F8, F8]\<rparr>,
           \<lparr>dtype_names = [''start'', ''area''], rows = [[Fin 1, Fin 3]], dtype_formats = [F8, F8]\<rparr>],
          [(2, 3)])"
  using C7_filter_does_not_mutate_sources
    [of "[\<lparr>dtype_names = [''time'', ''power''], rows = [[Fin 1, Fin 5]], dtype_formats = [F8, F8]\<rparr>,
          \<lparr>dtype_names = [''start'', ''area''], rows = [[Fin 1, Fin 3], [Fin 2, Fin (- 1)]],
           dtype_formats = [F8, F8]\<rparr>]"
        "[0]" "[1]" "[(''area'', Fin 0, Fin 10)]"]
  by (simp add: gen_filtered_time_series_def filter_bin_retained retained_def alloc_def
        passes_def as_compared_def field_format_def field_value_def in_range_def fge_def)

text \<open>The first pair yielded holds the filtered arrays of the first bin.\<close>

lemma gen_loop_first_bin:
  "\<exists>h' out.
     gen_loop h ((events, flashes) # ps) bnds = Inr (h', (length h, Suc (length h)) # out)
     \<and> h' ! length h = retained bnds (h ! events)
     \<and> h' ! Suc (length h) = retained bnds (h ! flashes)"
proof -
  let ?h2 = "h @ [retained bnds (h ! events), retained bnds (h ! flashes)]"
  obtain ext where
    ext: "gen_loop ?h2 ps bnds = Inr (?h2 @ ext, yielded (length ?h2) (length ps))"
    using gen_loop_extends [of ?h2 ps bnds] by blast
  have "gen_loop h ((events, flashes) # ps) bnds
          = Inr (?h2 @ ext, (length h, Suc (length h)) # yielded (length ?h2) (length ps))"
    using ext by (simp add: filter_bin_retained alloc_def)
  moreover have "(?h2 @ ext) ! length h = retained bnds (h ! events)"
    by (simp add: nth_append)
  moreover have "(?h2 @ ext) ! Suc (length h) = retained bnds (h ! flashes)"
    by (simp add: nth_append)
  ultimately show ?thesis by blast
qed

section \<open>Properties of the size statistics file\<close>

lemma format_line_template:
  "format_template line_template [a0, a1, a2, a3, a4, a5, a6, a7, a8]
     = Inr (csv_line [a0, a1, a2, a3, a4, a5, a6, a7, a8])"
  by (simp add: line_template_def csv_line_def digit_of_def newline_def)

lemma nine_elements:
  assumes "length xs = 9"
  obtains a0 a1 a2 a3 a4 a5 a6 a7 a8 where "xs = [a0, a1, a2, a3, a4, a5, a6, a7, a8]"
  using assms by (auto simp: numeral_eq_Suc length_Suc_conv)

lemma format_line_template_nine:
  assumes "length xs = 9"
  shows "format_template line_template xs = Inr (csv_line xs)"
proof -
  obtain a0 a1 a2 a3 a4 a5 a6 a7 a8 where "xs = [a0, a1, a2, a3, a4, a5, a6, a7, a8]"
    using assms by (rule nine_elements)
  then show ?thesis by (simp only: format_line_template)
qed

lemma row_fields_columns:
  "map (field_index names) ks = map Some cols \<Longrightarrow>
     row_fields names stats ks = Inr (map (\<lambda>i. stats ! i) cols)"
proof (induction ks arbitrary: cols)
  case Nil
  then show ?case by simp
next
  case (Cons k ks)
  then obtain c cs where cols: "cols = c # cs" by (cases cols) auto
  with Cons.prems have "field_index names k = Some c" "map (field_index names) ks = map Some cs"
    by simp_all
  with Cons.IH [of cs] show ?case
    by (simp add: cols field_value_def)
qed

lemma columns_exist:
  "set ks \<subseteq> set names \<Longrightarrow> \<exists>cols. map (field_index names) ks = map Some cols"
proof (induction ks)
  case Nil
  show ?case by simp
next
  case (Cons k ks)
  then obtain cols where cols: "map (field_index names) ks = map Some cols" by auto
  from Cons.prems have "field_index names k \<noteq> None"
    by (simp add: field_index_None)
  then obtain c where "field_index names k = Some c" by auto
  with cols have "map (field_index names) (k # ks) = map Some (c # cols)" by simp
  then show ?case by blast
qed

lemma write_stat_lines_spec:
  assumes "map (field_index names) stat_keys = map Some cols"
  shows "write_stat_lines str_of names rs f
           = Inr (f @ map (\<lambda>stats. csv_line (map (\<lambda>i. str_of (stats ! i)) cols)) rs)"
proof -
  have len: "length cols = 9"
    using arg_cong [OF assms, of length] by (simp add: stat_keys_def)
  show ?thesis
  proof (induction rs arbitrary: f)
    case Nil
    show ?case by simp
  next
    case (Cons stats rs)
    have "format_template line_template (map str_of (map (\<lambda>i. stats ! i) cols))
            = Inr (csv_line (map str_of (map (\<lambda>i. stats ! i) cols)))"
      by (rule format_line_template_nine) (simp add: len)
    then show ?case
      by (simp add: row_fields_columns [OF assms] Cons.IH comp_def)
  qed
qed

text \<open>
  Claim C4. When the array has the nine statistics fields, the file written
  is the header followed by one line per row of \<open>size_stats\<close> (one per time
  bin), in the order of the rows; each line holds the row's values of
  \<open>start_isoformat\<close>, \<open>end_isoformat\<close>, \<open>number\<close>, \<open>mean\<close>, \<open>variance\<close>,
  \<open>skewness\<close>, \<open>kurtosis\<close>, \<open>energy\<close>, \<open>energy_per_flash\<close>, in that order
  whatever the order of the fields in the array, separated by a comma and a
  space; and the header names the same nine fields in the same order.
\<close>

theorem C4_size_stats_written_in_fixed_order:
  assumes "set stat_keys \<subseteq> set (dtype_names size_stats)"
  shows "\<exists>cols.
     map (field_index (dtype_names size_stats))
       [''start_isoformat'', ''end_isoformat'', ''number'', ''mean'', ''variance'',
        ''skewness'', ''kurtosis'', ''energy'', ''energy_per_flash''] = map Some cols
     \<and> write_size_stat_data str_of size_stats
         = Inr (header # map (\<lambda>stats. csv_line (map (\<lambda>i. str_of (stats ! i)) cols))
                           (rows size_stats))
     \<and> header = ''# '' @ csv_line stat_keys"
proof -
  obtain cols where cols: "map (field_index (dtype_names size_stats)) stat_keys = map Some cols"
    using columns_exist [OF assms] by blast
  have "write_size_stat_data str_of size_stats
         = Inr (header # map (\<lambda>stats. csv_line (map (\<lambda>i. str_of (stats ! i)) cols))
                           (rows size_stats))"
    by (simp add: write_size_stat_data_def write_stat_lines_spec [OF cols])
  moreover have "header = ''# '' @ csv_line stat_keys"
    by (simp add: header_def csv_line_def stat_keys_def)
  moreover have "map (field_index (dtype_names size_stats))
       [''start_isoformat'', ''end_isoformat'', ''number'', ''mean'', ''variance'',
        ''skewness'', ''kurtosis'', ''energy'', ''energy_per_flash''] = map Some cols"
    using cols by (simp only: stat_keys_def)
  ultimately show ?thesis by blast
qed

theorem C4_size_stats_witness:
  "write_size_stat_data (\<lambda>v. v)
     \<lparr>dtype_names = [''number'', ''mean'', ''variance'', ''skewness'', ''kurtosis'', ''energy'',
                      ''energy_per_flash'', ''start_isoformat'', ''end_isoformat''],
      rows = [[''3'', ''2.0'', ''0.5'', ''0.0'', ''-1.5'', ''6.0'', ''2.0'', ''T00:00'', ''T00:30''],
              [''0'', ''nan'', ''nan'', ''nan'', ''nan'', ''0.0'', ''nan'', ''T00:30'', ''T01:00'']]\<rparr>
   = Inr [header,
          ''T00:00, T00:30, 3, 2.0, 0.5, 0.0, -1.5, 6.0, 2.0'' @ [newline],
          ''T00:30, T01:00, 0, nan, nan, nan, nan, 0.0, nan'' @ [newline]]"
proof -
  have fields: "set stat_keys \<subseteq> set (dtype_names
     \<lparr>dtype_names = [''number'', ''mean'', ''variance'', ''skewness'', ''kurtosis'', ''energy'',
                      ''energy_per_flash'', ''start_isoformat'', ''end_isoformat''],
      rows = [[''3'', ''2.0'', ''0.5'', ''0.0'', ''-1.5'', ''6.0'', ''2.0'', ''T00:00'', ''T00:30''],
              [''0'', ''nan'', ''nan'', ''nan'', ''nan'', ''0.0'', ''nan'', ''T00:30'', ''T01:00'']]\<rparr>)"
    by (simp add: stat_keys_def)
  from C4_size_stats_written_in_fixed_order [OF fields, of "\<lambda>v. v"]
  show ?thesis
    by (auto simp: csv_line_def)
qed

section \<open>Properties of the durations and the normalised profiles\<close>

lemma length_durations_min: "length (durations_min es) = length es - 1"
  by (simp add: durations_min_def)

lemma nth_durations_min:
  assumes "i < length es - 1"
  shows "durations_min es ! i = (es ! Suc i - es ! i) / 60"
proof -
  have "tl es ! i = es ! Suc i"
    using assms by (simp add: nth_tl)
  moreover have "butlast es ! i = es ! i"
    using assms by (simp add: nth_butlast)
  ultimately show ?thesis
    using assms by (simp add: durations_min_def)
qed

text \<open>
  Claim C2. From \<open>N\<close> bin edges the script builds \<open>N - 1\<close> durations, the
  consecutive differences of the edge times in seconds divided by 60; that is
  one duration per bin. Given one profile per bin, normalising yields one
  profile per bin, and every value of bin \<open>i\<close> is the accumulated value divided
  by the duration of bin \<open>i\<close> in minutes (for a bin of non-zero duration).
\<close>

theorem C2_profiles_divided_by_minutes:
  "length (durations_min t_edges_seconds) = length t_edges_seconds - 1
   \<and> (\<forall>i < length t_edges_seconds - 1.
         durations_min t_edges_seconds ! i
           = (t_edges_seconds ! Suc i - t_edges_seconds ! i) / 60)
   \<and> (length profiles = length t_edges_seconds - 1 \<longrightarrow>
         length (normalize_profiles profiles (durations_min t_edges_seconds)) = length profiles
         \<and> (\<forall>i < length profiles. \<forall>j < length (profiles ! i).
               length (normalize_profiles profiles (durations_min t_edges_seconds) ! i)
                 = length (profiles ! i)
               \<and> (t_edges_seconds ! Suc i \<noteq> t_edges_seconds ! i \<longrightarrow>
                    normalize_profiles profiles (durations_min t_edges_seconds) ! i ! j
                      = profiles ! i ! j / ((t_edges_seconds ! Suc i - t_edges_seconds ! i) / 60))))"
  by (simp add: length_durations_min nth_durations_min normalize_profiles_def)

theorem C2_profiles_witness:
  "durations_min [0, 1800, 3600, 4500] = [30, 30, 15]
   \<and> normalize_profiles [[60, 0], [3, 30], [15, 45]] (durations_min [0, 1800, 3600, 4500])
       = [[2, 0], [1 / 10, 1], [1, 3]]"
  using C2_profiles_divided_by_minutes [of "[0, 1800, 3600, 4500]" "[[60, 0], [3, 30], [15, 45]]"]
  by (simp add: durations_min_def normalize_profiles_def)

section \<open>Properties of the profile output\<close>

text \<open>
  Claim C3. With a first bin (the series is not empty) whose flash records
  have no \<open>CG\<close> field, the branch ends without error having written one profile
  data set, the IC profiles under the kind \<open>total\<close>, and saved only the IC
  figure: the CG profiles are not saved. With a \<open>CG\<close> field it writes two data
  sets, the IC profiles under \<open>IC\<close> and the CG profiles under \<open>CG\<close>.
\<close>

theorem C3_total_fallback_without_CG:
  "\<exists>effs. write_profile_outputs (flashes0 # rest) ic cg = Inr effs
     \<and> profile_writes effs =
         (if ''CG'' \<in> set (dtype_names flashes0) then [(ic, ''IC''), (cg, ''CG'')]
          else [(ic, ''total'')])
     \<and> saved_figures effs =
         (if ''CG'' \<in> set (dtype_names flashes0)
          then [(CG_fig, ''_CG.pdf''), (IC_fig, ''_IC.pdf'')]
          else [(IC_fig, ''_total.pdf'')])"
  by (simp add: write_profile_outputs_def)

theorem C3_total_fallback_witness:
  "write_profile_outputs
     [\<lparr>dtype_names = [''start'', ''area''], rows = [[Fin 1, Fin 3]]\<rparr>] (1::nat) 2
     = Inr [WriteProfileData 1 ''total'', SaveFig IC_fig ''_total.pdf'']
   \<and> write_profile_outputs
     [\<lparr>dtype_names = [''start'', ''area'', ''CG''], rows = [[Fin 1, Fin 3, Fin 0]]\<rparr>] (1::nat) 2
     = Inr [WriteProfileData 1 ''IC'', WriteProfileData 2 ''CG'',
            SaveFig CG_fig ''_CG.pdf'', SaveFig IC_fig ''_IC.pdf'']"
  using C3_total_fallback_without_CG
     [of "\<lparr>dtype_names = [''start'', ''area''], rows = [[Fin 1, Fin 3]]\<rparr>" "[]" "1::nat" 2]
    C3_total_fallback_without_CG
     [of "\<lparr>dtype_names = [''start'', ''area'', ''CG''], rows = [[Fin 1, Fin 3, Fin 0]]\<rparr>" "[]"
         "1::nat" 2]
  by (simp add: write_profile_outputs_def)

text \<open>What the branch does depends on the field names of the first array only.\<close>

lemma write_profile_outputs_names:
  "dtype_names a = dtype_names b \<Longrightarrow>
     write_profile_outputs (a # as) ic cg = write_profile_outputs (b # bs) ic cg"
  by (simp add: write_profile_outputs_def)

text \<open>
  Claim C10, as the code has it. The branch reads the dtype of the first bin
  only: a run over a non-empty series writes what the branch writes for the
  flash array of the first bin alone, the bins after the first and the rows
  have no influence, so the choice is made once and not per bin or per flash.
  A run over an empty series never reaches the branch: unpacking the filtered
  series raises \<^verbatim>\<open>ValueError\<close> before, and nothing is written.
\<close>

theorem C10_first_bin_decides_empty_series_stops_at_unpacking:
  "(events_series = [] \<or> flashes_series = [] \<longrightarrow>
      profile_output_run h events_series flashes_series bnds ic cg = Inl ValueError)
   \<and> profile_output_run h (events0 # es) (flashes0 # fs) bnds ic cg
       = write_profile_outputs [h ! flashes0] ic cg
   \<and> write_profile_outputs (first # rest) ic cg = write_profile_outputs (first # rest') ic cg
   \<and> write_profile_outputs (first # rest) ic cg
       = write_profile_outputs [first\<lparr>rows := []\<rparr>] ic cg"
proof -
  have empty: "events_series = [] \<or> flashes_series = [] \<longrightarrow>
      profile_output_run h events_series flashes_series bnds ic cg = Inl ValueError"
    by (auto simp: profile_output_run_def gen_filtered_time_series_def unpack_series_def)
  obtain h' out where
    run: "gen_loop h ((events0, flashes0) # zip es fs) bnds
            = Inr (h', (length h, Suc (length h)) # out)"
    and first_flashes: "h' ! Suc (length h) = retained bnds (h ! flashes0)"
    using gen_loop_first_bin [of h events0 flashes0 "zip es fs" bnds] by blast
  have "profile_output_run h (events0 # es) (flashes0 # fs) bnds ic cg
          = write_profile_outputs (retained bnds (h ! flashes0) # map (\<lambda>a. h' ! a) (map snd out)) ic cg"
    using run first_flashes
    by (simp add: profile_output_run_def gen_filtered_time_series_def unpack_series_def)
  also have "\<dots> = write_profile_outputs [h ! flashes0] ic cg"
    by (rule write_profile_outputs_names) (simp add: retained_def)
  finally have nonempty: "profile_output_run h (events0 # es) (flashes0 # fs) bnds ic cg
       = write_profile_outputs [h ! flashes0] ic cg" .
  have later: "write_profile_outputs (first # rest) ic cg
                 = write_profile_outputs (first # rest') ic cg"
    by (rule write_profile_outputs_names) simp
  have no_rows: "write_profile_outputs (first # rest) ic cg
                 = write_profile_outputs [first\<lparr>rows := []\<rparr>] ic cg"
    by (rule write_profile_outputs_names) simp
  show ?thesis
    by (intro conjI empty nonempty later no_rows)
qed

theorem C10_first_bin_witness:
  "profile_output_run
     [\<lparr>dtype_names = [''time''], rows = [[Fin 1]], dtype_formats = [F8]\<rparr>,
      \<lparr>dtype_names = [''start'', ''area''], rows = [[Fin 1, Fin 3]], dtype_formats = [F8, F4]\<rparr>,
      \<lparr>dtype_names = [''time''], rows = [[Fin 2]], dtype_formats = [F8]\<rparr>,
      \<lparr>dtype_names = [''start'', ''area'', ''CG''], rows = [[Fin 2, Fin 3, Fin 1]],
       dtype_formats = [F8, F4, F8]\<rparr>]
     [0, 2] [1, 3] [(''area'', Fin 0, Fin 10000000000)] (1::nat) 2
     = Inr [WriteProfileData 1 ''total'', SaveFig IC_fig ''_total.pdf'']
   \<and> profile_output_run
     [\<lparr>dtype_names = [''time''], rows = [[Fin 1]], dtype_formats = [F8]\<rparr>]
     [] [] [(''area'', Fin 0, Fin 10000000000)] (1::nat) 2
     = Inl ValueError"
  using C10_first_bin_decides_empty_series_stops_at_unpacking
     [of "[]" "[]"
         "[\<lparr>dtype_names = [''time''], rows = [[Fin 1]], dtype_formats = [F8]\<rparr>]"
         "[(''area'', Fin 0, Fin 10000000000)]" "1::nat" 2]
    C10_first_bin_decides_empty_series_stops_at_unpacking
     [of "[]" "[]"
         "[\<lparr>dtype_names = [''time''], rows = [[Fin 1]], dtype_formats = [F8]\<rparr>,
           \<lparr>dtype_names = [''start'', ''area''], rows = [[Fin 1, Fin 3]], dtype_formats = [F8, F4]\<rparr>,
           \<lparr>dtype_names = [''time''], rows = [[Fin 2]], dtype_formats = [F8]\<rparr>,
           \<lparr>dtype_names = [''start'', ''area'', ''CG''], rows = [[Fin 2, Fin 3, Fin 1]],
            dtype_formats = [F8, F4, F8]\<rparr>]"
         "[(''area'', Fin 0, Fin 10000000000)]" "1::nat" 2 0 "[2]" 1 "[3]"]
  by (simp add: write_profile_outputs_def)

text \<open>
  The claim as written fails on the empty series: the run does not end in the
  test of the branch with an \<^verbatim>\<open>IndexError\<close>; it has stopped before, at the
  unpacking, with a \<^verbatim>\<open>ValueError\<close>.
\<close>

theorem C10_empty_series_fails_at_unpacking:
  "profile_output_run [] [] [] [(''area'', Fin 0, Fin 10000000000)] (1::nat) 2 = Inl ValueError
   \<and> profile_output_run [] [] [] [(''area'', Fin 0, Fin 10000000000)] (1::nat) 2 \<noteq> Inl IndexError"
  by (simp add: profile_output_run_def gen_filtered_time_series_def unpack_series_def)

section \<open>Properties of the grid-subset reporting pass\<close>

lemma select_mask_subset:
  assumes "select_mask a good = Inr filtered"
    and "select_mask a (mask_and good nonzero) = Inr nonzero_filtered"
  shows "set nonzero_filtered \<subseteq> set filtered"
proof
  fix c assume "c \<in> set nonzero_filtered"
  with assms(2) have "(c, True) \<in> set (zip a (mask_and good nonzero))"
    by (auto simp: select_mask_def split: if_splits)
  then obtain i where i: "i < length a" "i < length (mask_and good nonzero)"
      "a ! i = c" "mask_and good nonzero ! i = True"
    by (auto simp: in_set_zip)
  then have "i < length good" "i < length nonzero"
    by (simp_all add: length_mask_and)
  with i have "good ! i" by (simp add: nth_mask_and)
  with i \<open>i < length good\<close> have "(c, True) \<in> set (zip a good)"
    by (auto simp: in_set_zip)
  with assms(1) show "c \<in> set filtered"
    by (force simp: select_mask_def split: if_splits)
qed

lemma select_both_masks:
  "length good = length a \<Longrightarrow>
     map fst (filter snd (zip a (mask_and good (map P a))))
       = map fst (filter (\<lambda>(c, g). g \<and> P c) (zip a good))"
proof (induction a arbitrary: good)
  case Nil
  then show ?case by (simp add: mask_and_def)
next
  case (Cons c cs)
  then obtain g gs where good: "good = g # gs" by (cases good) auto
  with Cons.prems have "length gs = length cs" by simp
  from Cons.IH [OF this] show ?case
    by (simp add: good mask_and_def)
qed

lemma lasso_subsets_ok:
  assumes "length (filter_mask env a) = length a"
  shows "\<exists>filtered nonzero_filtered.
           lasso_subsets env a = Inr (filtered, nonzero_filtered)
           \<and> set nonzero_filtered \<subseteq> set filtered
           \<and> (nonzero_filtered = [] \<longleftrightarrow>
                list_all (\<lambda>(c, g). \<not> (g \<and> cell_val c > 0)) (zip a (filter_mask env a)))"
proof -
  let ?good = "filter_mask env a" and ?nonzero = "map (\<lambda>c. cell_val c > 0) a"
  let ?f = "map fst (filter snd (zip a ?good))"
  let ?nzf = "map fst (filter snd (zip a (mask_and ?good ?nonzero)))"
  have f: "select_mask a ?good = Inr ?f"
    using assms by (simp add: select_mask_def)
  have nzf: "select_mask a (mask_and ?good ?nonzero) = Inr ?nzf"
    using assms by (simp add: select_mask_def length_mask_and)
  have run: "lasso_subsets env a = Inr (?f, ?nzf)"
    using f nzf by (simp add: lasso_subsets_def Let_def)
  have sub: "set ?nzf \<subseteq> set ?f"
    using f nzf by (rule select_mask_subset)
  have "?nzf = map fst (filter (\<lambda>(c, g). g \<and> cell_val c > 0) (zip a ?good))"
    using assms by (rule select_both_masks)
  then have "?nzf = [] \<longleftrightarrow> list_all (\<lambda>(c, g). \<not> (g \<and> cell_val c > 0)) (zip a ?good)"
    by (auto simp: filter_empty_conv list_all_iff)
  with run sub show ?thesis by blast
qed

lemma array_max_ok: "v \<noteq> [] \<Longrightarrow> \<exists>m. array_max v = Inr m"
  by (cases v) auto

lemma grid_row_ok:
  assumes "set nonzero_filtered \<subseteq> set filtered"
  shows "\<exists>row. grid_row env t filtered nonzero_filtered = Inr row \<and> length row = 6
           \<and> (nonzero_filtered = [] \<longrightarrow> row = [str_time env t, ''0'', ''0'', ''0.0'', ''0.0'', ''0.0''])"
proof (cases "nonzero_filtered = []")
  case True
  then show ?thesis by (simp add: grid_row_def)
next
  case False
  with assms have "map cell_val filtered \<noteq> []" by auto
  then obtain m where "array_max (map cell_val filtered) = Inr m"
    using array_max_ok by blast
  with False show ?thesis by (simp add: grid_row_def Let_def)
qed

text \<open>One well-formed step appends exactly one line of six fields to the log.\<close>

lemma plot_lasso_grid_subset_ok:
  assumes "grid_step_ok env basedate (t, xedge, yedge, data)"
  shows "\<exists>row. plot_lasso_grid_subset env datalog t xedge yedge data basedate
                  = Inr (datalog @ [join_comma row @ [newline]])
           \<and> length row = 6
           \<and> (nonzero_subset_empty env basedate (t, xedge, yedge, data) \<longrightarrow>
                row = [str_time env t, ''0'', ''0'', ''0.0'', ''0.0'', ''0.0''])"
proof -
  let ?a = "grid_cells t basedate xedge yedge data"
  from assms have shape: "(length (centers yedge), length (centers xedge)) = shape data"
    and mask: "length (filter_mask env ?a) = length ?a"
    by (simp_all add: grid_step_ok_def)
  from lasso_subsets_ok [OF mask] obtain filtered nonzero_filtered where
    subsets: "lasso_subsets env ?a = Inr (filtered, nonzero_filtered)"
    and sub: "set nonzero_filtered \<subseteq> set filtered"
    and empty: "nonzero_filtered = [] \<longleftrightarrow>
                list_all (\<lambda>(c, g). \<not> (g \<and> cell_val c > 0)) (zip ?a (filter_mask env ?a))"
    by blast
  from grid_row_ok [OF sub, of env t] obtain row where
    row: "grid_row env t filtered nonzero_filtered = Inr row" "length row = 6"
      "nonzero_filtered = [] \<longrightarrow> row = [str_time env t, ''0'', ''0'', ''0.0'', ''0.0'', ''0.0'']"
    by blast
  have "plot_lasso_grid_subset env datalog t xedge yedge data basedate
          = Inr (datalog @ [join_comma row @ [newline]])"
    using shape subsets row(1) by (simp add: plot_lasso_grid_subset_def)
  moreover have "nonzero_subset_empty env basedate (t, xedge, yedge, data) \<longrightarrow>
                row = [str_time env t, ''0'', ''0'', ''0.0'', ''0.0'', ''0.0'']"
    using empty row(3) by (simp add: nonzero_subset_empty_def Let_def)
  ultimately show ?thesis using row(2) by blast
qed

lemma grid_loop_skip:
  "\<not> in_grid_window t_start t_end step \<Longrightarrow>
     grid_loop env basedate t_start t_end (datalog, saved) (step # steps)
       = grid_loop env basedate t_start t_end (datalog, saved) steps"
  by (cases step) (auto simp: in_grid_window_def)

lemma grid_loop_take:
  "in_grid_window t_start t_end (t, xedge, yedge, data) \<Longrightarrow>
     plot_lasso_grid_subset env datalog t xedge yedge data basedate = Inr datalog' \<Longrightarrow>
     grid_loop env basedate t_start t_end (datalog, saved) ((t, xedge, yedge, data) # steps)
       = grid_loop env basedate t_start t_end (datalog', saved @ [t]) steps"
  by (simp add: in_grid_window_def)

lemma grid_loop_ok:
  assumes "\<forall>step \<in> set steps. in_grid_window t_start t_end step \<longrightarrow> grid_step_ok env basedate step"
  shows "\<exists>lines. grid_loop env basedate t_start t_end (datalog, saved) steps
                   = Inr (datalog @ lines,
                          saved @ map fst (filter (in_grid_window t_start t_end) steps))
           \<and> list_all2 (row_of_step env basedate) lines
                (filter (in_grid_window t_start t_end) steps)"
  using assms
proof (induction steps arbitrary: datalog saved)
  case Nil
  show ?case by simp
next
  case (Cons step steps)
  obtain t xedge yedge data where step: "step = (t, xedge, yedge, data)"
    by (cases step) auto
  from Cons.prems have rest:
    "\<forall>s \<in> set steps. in_grid_window t_start t_end s \<longrightarrow> grid_step_ok env basedate s"
    by simp
  show ?case
  proof (cases "in_grid_window t_start t_end step")
    case False
    with Cons.IH [OF rest, of datalog saved] show ?thesis
      by (simp add: grid_loop_skip)
  next
    case True
    with Cons.prems have "grid_step_ok env basedate (t, xedge, yedge, data)"
      by (simp add: step)
    from plot_lasso_grid_subset_ok [OF this, of datalog] obtain row where
      row: "plot_lasso_grid_subset env datalog t xedge yedge data basedate
              = Inr (datalog @ [join_comma row @ [newline]])"
        "length row = 6"
        "nonzero_subset_empty env basedate (t, xedge, yedge, data) \<longrightarrow>
           row = [str_time env t, ''0'', ''0'', ''0.0'', ''0.0'', ''0.0'']"
      by blast
    let ?line = "join_comma row @ [newline]"
    from Cons.IH [OF rest, of "datalog @ [?line]" "saved @ [t]"] obtain lines where
      lines: "grid_loop env basedate t_start t_end (datalog @ [?line], saved @ [t]) steps
                = Inr ((datalog @ [?line]) @ lines,
                       (saved @ [t]) @ map fst (filter (in_grid_window t_start t_end) steps))"
        "list_all2 (row_of_step env basedate) lines (filter (in_grid_window t_start t_end) steps)"
      by blast
    have here: "row_of_step env basedate ?line step"
      unfolding row_of_step_def using row(2,3) by (auto simp: step)
    have "grid_loop env basedate t_start t_end (datalog, saved) (step # steps)
            = Inr (datalog @ (?line # lines),
                   saved @ map fst (filter (in_grid_window t_start t_end) (step # steps)))"
    proof -
      from True have "in_grid_window t_start t_end (t, xedge, yedge, data)"
        by (simp add: step)
      from grid_loop_take [OF this row(1)]
      have "grid_loop env basedate t_start t_end (datalog, saved) (step # steps)
              = grid_loop env basedate t_start t_end (datalog @ [?line], saved @ [t]) steps"
        by (simp only: step)
      with lines(1) True show ?thesis
        by (simp add: step del: grid_loop.simps)
    qed
    moreover have "list_all2 (row_of_step env basedate) (?line # lines)
                     (filter (in_grid_window t_start t_end) (step # steps))"
      using True here lines(2) by simp
    ultimately show ?thesis by blast
  qed
qed

text \<open>
  Claim C6. When every grid step in the window is well formed, the pass ends
  without error and appends to the log exactly one line per processed step, in
  order, each a row of six fields; for a step whose lasso-filtered nonzero
  subset is empty the line is the row of the step's time followed by
  \<open>0, 0, 0.0, 0.0, 0.0\<close>.
\<close>

theorem C6_one_row_per_processed_step:
  assumes "\<forall>step \<in> set steps. in_grid_window t_start t_end step \<longrightarrow> grid_step_ok env basedate step"
  shows "\<exists>lines saved'.
     grid_loop env basedate t_start t_end (datalog, saved) steps = Inr (datalog @ lines, saved')
     \<and> length lines = length (filter (in_grid_window t_start t_end) steps)
     \<and> (\<forall>i < length lines.
           (\<exists>row. lines ! i = join_comma row @ [newline] \<and> length row = 6)
           \<and> (nonzero_subset_empty env basedate (filter (in_grid_window t_start t_end) steps ! i) \<longrightarrow>
                lines ! i
                  = join_comma [str_time env (fst (filter (in_grid_window t_start t_end) steps ! i)),
                                ''0'', ''0'', ''0.0'', ''0.0'', ''0.0''] @ [newline]))"
proof -
  let ?sel = "filter (in_grid_window t_start t_end) steps"
  from grid_loop_ok [OF assms, of datalog saved] obtain lines where
    run: "grid_loop env basedate t_start t_end (datalog, saved) steps
            = Inr (datalog @ lines, saved @ map fst ?sel)"
    and rows: "list_all2 (row_of_step env basedate) lines ?sel"
    by blast
  have len: "length lines = length ?sel"
    using rows by (rule list_all2_lengthD)
  have each: "(\<exists>row. lines ! i = join_comma row @ [newline] \<and> length row = 6)
           \<and> (nonzero_subset_empty env basedate (?sel ! i) \<longrightarrow>
                lines ! i = join_comma [str_time env (fst (?sel ! i)),
                                ''0'', ''0'', ''0.0'', ''0.0'', ''0.0''] @ [newline])"
    if "i < length lines" for i
  proof -
    from rows that have "row_of_step env basedate (lines ! i) (?sel ! i)"
      by (rule list_all2_nthD)
    then show ?thesis
      unfolding row_of_step_def by auto
  qed
  from run len each show ?thesis by blast
qed

theorem C6_one_row_witness:
  "grid_loop
     \<lparr>filter_mask = map (\<lambda>c. cell_lon c < 1), scoreatpercentile = (\<lambda>v p. 0),
      str_num = (\<lambda>x. ''n''), isoformat = (\<lambda>t. ''iso''), str_time = (\<lambda>t. ''t'')\<rparr>
     0 0 10 ([], [])
     [(5, [0, 1, 2], [0, 1], \<lparr>shape = (1, 2), flat = [0, 3]\<rparr>),
      (20, [0, 1, 2], [0, 1], \<lparr>shape = (1, 2), flat = [4, 3]\<rparr>),
      (7, [0, 1, 2], [0, 1], \<lparr>shape = (1, 2), flat = [4, 3]\<rparr>)]
   = Inr ([''t, 0, 0, 0.0, 0.0, 0.0'' @ [newline], ''iso, n, n, n, n, n'' @ [newline]], [5, 7])"
proof -
  let ?env = "\<lparr>filter_mask = map (\<lambda>c. cell_lon c < 1), scoreatpercentile = (\<lambda>v p. 0),
      str_num = (\<lambda>x. ''n''), isoformat = (\<lambda>t. ''iso''), str_time = (\<lambda>t. ''t'')\<rparr>"
  let ?steps = "[(5, [0, 1, 2], [0, 1], \<lparr>shape = (1, 2), flat = [0, 3]\<rparr>),
      (20, [0, 1, 2], [0, 1], \<lparr>shape = (1, 2), flat = [4, 3]\<rparr>),
      (7, [0, 1, 2], [0, 1], \<lparr>shape = (1, 2), flat = [4, 3 :: real]\<rparr>)] :: grid_step list"
  have ok: "\<forall>step \<in> set ?steps. in_grid_window 0 10 step \<longrightarrow> grid_step_ok ?env 0 step"
    by (simp add: grid_step_ok_def centers_def grid_cells_def xmesh_flat_def ymesh_flat_def)
  from C6_one_row_per_processed_step [OF ok, of "[]" "[]"]
  obtain lines saved' where
    run: "grid_loop ?env 0 0 10 ([], []) ?steps = Inr ([] @ lines, saved')"
    and len: "length lines = length (filter (in_grid_window 0 10) ?steps)"
    and first: "nonzero_subset_empty ?env 0 (filter (in_grid_window 0 10) ?steps ! 0) \<longrightarrow>
                lines ! 0
                  = join_comma [str_time ?env (fst (filter (in_grid_window 0 10) ?steps ! 0)),
                                ''0'', ''0'', ''0.0'', ''0.0'', ''0.0''] @ [newline]"
    by (auto simp: in_grid_window_def)
  have "grid_loop ?env 0 0 10 ([], []) ?steps
   = Inr ([''t, 0, 0, 0.0, 0.0, 0.0'' @ [newline], ''iso, n, n, n, n, n'' @ [newline]], [5, 7])"
    by (simp add: plot_lasso_grid_subset_def lasso_subsets_def grid_row_def grid_cells_def
          centers_def xmesh_flat_def ymesh_flat_def select_mask_def mask_and_def)
  with run show ?thesis by simp
qed

section \<open>Properties of the time windows\<close>

lemma assign_in_window:
  assumes "0 < w" and "assign t_start t_end w t = Some k"
  shows "t_start \<le> t \<and> t < t_end"
proof -
  from assms(2) have k: "k < n_bins t_start t_end w"
    and lo: "bin_edge t_start t_end w k \<le> t" and hi: "t < bin_edge t_start t_end w (Suc k)"
    by (auto simp: assign_def find_Some_iff)
  from k have "0 < nat \<lceil>(t_end - t_start) / w\<rceil>"
    unfolding n_bins_def by linarith
  then have "0 < \<lceil>(t_end - t_start) / w\<rceil>"
    by simp
  then have "0 < (t_end - t_start) / w"
    by (simp add: less_ceiling_iff)
  with assms(1) have "t_start < t_end" by (simp add: zero_less_divide_iff)
  moreover have "0 \<le> real k * w" using assms(1) by simp
  ultimately have "t_start \<le> bin_edge t_start t_end w k"
    by (simp add: bin_edge_def)
  with lo have "t_start \<le> t" by linarith
  moreover from hi have "t < t_end" by (simp add: bin_edge_def)
  ultimately show ?thesis by simp
qed

lemma window_assigned:
  assumes "0 < w" and "t_start \<le> t" and "t < t_end"
  shows "\<exists>k. assign t_start t_end w t = Some k"
proof -
  define q where "q = (t - t_start) / w"
  define k where "k = nat \<lfloor>q\<rfloor>"
  have q0: "0 \<le> q" using assms by (simp add: q_def)
  then have kq: "real k = of_int \<lfloor>q\<rfloor>" by (simp add: k_def)
  have k_le: "real k \<le> q" and q_lt: "q < real k + 1"
    unfolding kq by linarith+
  have "real k * w \<le> t - t_start"
    using k_le assms(1) by (simp add: q_def pos_le_divide_eq)
  then have lo: "bin_edge t_start t_end w k \<le> t"
    by (simp add: bin_edge_def min_le_iff_disj)
  have "t - t_start < (real k + 1) * w"
    using q_lt assms(1) by (simp add: q_def pos_divide_less_eq)
  then have hi: "t < bin_edge t_start t_end w (Suc k)"
    using assms(3) by (simp add: bin_edge_def algebra_simps)
  have "q < (t_end - t_start) / w"
    using assms by (simp add: q_def divide_strict_right_mono)
  with k_le have "real k < (t_end - t_start) / w" by linarith
  also have "\<dots> \<le> of_int \<lceil>(t_end - t_start) / w\<rceil>" by (rule le_of_int_ceiling)
  finally have "int k < \<lceil>(t_end - t_start) / w\<rceil>" by linarith
  then have kn: "k < n_bins t_start t_end w" by (simp add: n_bins_def)
  have "\<exists>x \<in> set [0..<n_bins t_start t_end w].
          bin_edge t_start t_end w x \<le> t \<and> t < bin_edge t_start t_end w (Suc x)"
    using kn lo hi by auto
  then have "assign t_start t_end w t \<noteq> None"
    unfolding assign_def find_None_iff by blast
  then show ?thesis by auto
qed

lemma assign_None_iff:
  assumes "0 < w"
  shows "assign t_start t_end w t = None \<longleftrightarrow> \<not> (t_start \<le> t \<and> t < t_end)"
proof
  assume "assign t_start t_end w t = None"
  then show "\<not> (t_start \<le> t \<and> t < t_end)"
    using window_assigned [OF assms, of t_start t t_end] by auto
next
  assume out: "\<not> (t_start \<le> t \<and> t < t_end)"
  show "assign t_start t_end w t = None"
  proof (cases "assign t_start t_end w t")
    case None
    then show ?thesis .
  next
    case (Some k)
    from assign_in_window [OF assms this] out show ?thesis by simp
  qed
qed

text \<open>
  Claim C5, as the code has it. A timestamped record is assigned to no bin
  exactly when its timestamp lies outside the half-open window
  \<open>[t_start, t_end)\<close>; in particular a record at \<open>t_end\<close> belongs to no bin.
  The grid-subset reporting pass uses another test: it processes exactly the
  grid steps whose time lies in the closed window \<open>t_start \<le> t \<le> t_end\<close>, in
  order, so a grid step at \<open>t_end\<close> is processed; the steps outside the closed
  window are skipped without an error.
\<close>

theorem C5_window_half_open_for_bins_closed_for_grid:
  assumes "0 < bin_width"
    and "\<forall>step \<in> set steps. in_grid_window t_start t_end step \<longrightarrow> grid_step_ok env basedate step"
  shows "(assign t_start t_end bin_width t = None \<longleftrightarrow> \<not> (t_start \<le> t \<and> t < t_end))
     \<and> assign t_start t_end bin_width t_end = None
     \<and> (\<exists>datalog'.
           grid_loop env basedate t_start t_end (datalog, saved) steps
             = Inr (datalog', saved @ filter (\<lambda>t. t_start \<le> t \<and> t \<le> t_end) (map fst steps)))"
proof -
  have bins: "assign t_start t_end bin_width t = None \<longleftrightarrow> \<not> (t_start \<le> t \<and> t < t_end)"
    using assms(1) by (rule assign_None_iff)
  have at_end: "assign t_start t_end bin_width t_end = None"
    using assign_None_iff [OF assms(1), of t_start t_end t_end] by simp
  have "map fst (filter (in_grid_window t_start t_end) steps)
          = filter (\<lambda>t. t_start \<le> t \<and> t \<le> t_end) (map fst steps)"
    by (induction steps) (auto simp: in_grid_window_def)
  with grid_loop_ok [OF assms(2), of datalog saved]
  have "\<exists>datalog'.
           grid_loop env basedate t_start t_end (datalog, saved) steps
             = Inr (datalog', saved @ filter (\<lambda>t. t_start \<le> t \<and> t \<le> t_end) (map fst steps))"
    by auto
  with bins at_end show ?thesis by blast
qed

theorem C5_window_witness:
  "assign 0 10 5 10 = None \<and> assign 0 10 5 7 \<noteq> None
   \<and> (\<exists>datalog'.
        grid_loop
          \<lparr>filter_mask = map (\<lambda>c. cell_t c < 10 \<and> cell_lon c < 1), scoreatpercentile = (\<lambda>v p. 0),
           str_num = (\<lambda>x. ''n''), isoformat = (\<lambda>t. ''iso''), str_time = (\<lambda>t. ''t'')\<rparr>
          0 0 10 ([], [])
          [(5, [0, 1, 2], [0, 1], \<lparr>shape = (1, 2), flat = [4, 3]\<rparr>),
           (10, [0, 1, 2], [0, 1], \<lparr>shape = (1, 2), flat = [4, 3]\<rparr>),
           (11, [0, 1, 2], [0, 1], \<lparr>shape = (1, 2), flat = [4, 3]\<rparr>)]
        = Inr (datalog', [5, 10]))"
proof -
  let ?env = "\<lparr>filter_mask = map (\<lambda>c. cell_t c < 10 \<and> cell_lon c < 1), scoreatpercentile = (\<lambda>v p. 0),
      str_num = (\<lambda>x. ''n''), isoformat = (\<lambda>t. ''iso''), str_time = (\<lambda>t. ''t'')\<rparr>"
  let ?steps = "[(5, [0, 1, 2], [0, 1], \<lparr>shape = (1, 2), flat = [4, 3]\<rparr>),
           (10, [0, 1, 2], [0, 1], \<lparr>shape = (1, 2), flat = [4, 3]\<rparr>),
           (11, [0, 1, 2], [0, 1], \<lparr>shape = (1, 2), flat = [4, 3 :: real]\<rparr>)] :: grid_step list"
  have width: "(0::real) < 5" by simp
  have ok: "\<forall>step \<in> set ?steps. in_grid_window 0 10 step \<longrightarrow> grid_step_ok ?env 0 step"
    by (simp add: grid_step_ok_def centers_def grid_cells_def xmesh_flat_def ymesh_flat_def)
  from C5_window_half_open_for_bins_closed_for_grid [OF width ok, of 7 "[]" "[]"]
  show ?thesis by simp
qed

text \<open>
  The claim as written fails on the grid pass: with the window from 0 to 10, a
  grid step at time 10 is outside \<open>[0, 10)\<close>, and no bin takes a record of that
  time, yet the pass processes the step: it writes its row and saves its
  figure.
\<close>

theorem C5_grid_step_at_t_end_is_processed:
  "\<not> ((10::real) < 10) \<and> assign 0 10 5 10 = None
   \<and> grid_loop
        \<lparr>filter_mask = map (\<lambda>c. cell_t c < 10 \<and> cell_lon c < 1), scoreatpercentile = (\<lambda>v p. 0),
         str_num = (\<lambda>x. ''n''), isoformat = (\<lambda>t. ''iso''), str_time = (\<lambda>t. ''t'')\<rparr>
        0 0 10 ([], [])
        [(10, [0, 1, 2], [0, 1], \<lparr>shape = (1, 2), flat = [4, 3]\<rparr>)]
      = Inr ([''t, 0, 0, 0.0, 0.0, 0.0'' @ [newline]], [10])"
proof -
  have "assign 0 10 5 10 = None"
    using assign_None_iff [of 5 0 10 10] by simp
  moreover have "grid_loop
        \<lparr>filter_mask = map (\<lambda>c. cell_t c < 10 \<and> cell_lon c < 1), scoreatpercentile = (\<lambda>v p. 0),
         str_num = (\<lambda>x. ''n''), isoformat = (\<lambda>t. ''iso''), str_time = (\<lambda>t. ''t'')\<rparr>
        0 0 10 ([], [])
        [(10, [0, 1, 2], [0, 1], \<lparr>shape = (1, 2), flat = [4, 3]\<rparr>)]
      = Inr ([''t, 0, 0, 0.0, 0.0, 0.0'' @ [newline]], [10])"
    by (simp add: plot_lasso_grid_subset_def lasso_subsets_def grid_row_def grid_cells_def
          centers_def xmesh_flat_def ymesh_flat_def select_mask_def mask_and_def)
  ultimately show ?thesis by simp
qed

end
